theory Spec2Isabelle
  imports Main "HOL-Library.Monad_Syntax"
begin

section \<open>The native side: types, values, objects and classes\<close>

text \<open>
  \<^verbatim>\<open>Class.hpp\<close> is a class template over the bound class \<^verbatim>\<open>CppClass\<close>. The
  template argument is a value of the record \<open>cpp_class\<close> below; everything that
  is the bound class's own code (its constructors, its methods) is a field of that record.
  A failing step (undefined behaviour of the C API, a null or dangling pointer, an
  exception leaving a constructor) is the result \<open>None\<close>.
\<close>

type_synonym addr = nat
type_synonym class_id = nat

text \<open>A pointer to data member \<^verbatim>\<open>T CppClass::*\<close> designates one field of the class.\<close>

type_synonym member_ptr = nat

datatype cpp_type =
    TVoid | TInt | TBool | TString
  | TPtr class_id        \<comment> \<open>\<^verbatim>\<open>CppClass*\<close>\<close>
  | TConstPtr class_id   \<comment> \<open>\<^verbatim>\<open>const CppClass*\<close>\<close>
  | TConst cpp_type      \<comment> \<open>\<^verbatim>\<open>const T\<close>\<close>

text \<open>\<^verbatim>\<open>std::is_const<T>::value\<close>\<close>

fun is_const :: "cpp_type \<Rightarrow> bool" where
  "is_const (TConst T) = True"
| "is_const T = False"

datatype cpp_value = CppVoid | CppInt int | CppBool bool | CppString string | CppPtr addr

type_synonym cpp_object = "member_ptr \<Rightarrow> cpp_value"

text \<open>A pointer to member function \<^verbatim>\<open>Ret (CppClass::*)(Args...)\<close>.\<close>

record method_ptr =
  m_ret :: cpp_type
  m_args :: "cpp_type list"
  m_id :: nat

text \<open>
  One member handed to the constructor of \<^verbatim>\<open>Class\<close>. The overload of
  \<^verbatim>\<open>addMember\<close> is chosen by the member's shape: a pointer to a non-const member
  function, a pointer to a const member function, or a pointer to a data member of type
  \<open>T\<close> (where \<^verbatim>\<open>std::enable_if\<close> then selects on \<^verbatim>\<open>is_const<T>\<close>).
\<close>

datatype member =
    MemFn method_ptr
  | ConstMemFn method_ptr
  | DataMember cpp_type member_ptr

record cpp_class =
  type_id :: class_id
  sizeof :: nat
  constructor :: "cpp_value list \<Rightarrow> cpp_object option"
  copy_constructor :: "cpp_object \<Rightarrow> cpp_object option"
  method_body :: "nat \<Rightarrow> cpp_object \<Rightarrow> cpp_value list \<Rightarrow> (cpp_value \<times> cpp_object) option"

text \<open>
  The native callables that \<^verbatim>\<open>addMember\<close> hands to \<^verbatim>\<open>CppFunction\<close>: the member
  function pointer itself, or one of the two lambdas capturing the data member pointer.
\<close>

datatype native_callable =
    MemberFunction method_ptr
  | ConstMemberFunction method_ptr
  | SetterLambda member_ptr
  | GetterLambda member_ptr

text \<open>
  Modelled from the spec: \<^verbatim>\<open>CppFunction<Ret, Args...>\<close> is declared in
  \<^verbatim>\<open>CppFunction.hpp\<close>, which is not among the sources. The wrapper object is its
  template arguments together with the callable given to its constructor.
\<close>

record cpp_function =
  fn_ret :: cpp_type
  fn_params :: "cpp_type list"
  fn_target :: native_callable

section \<open>The Lua state\<close>

text \<open>
  The part of the Lua C API that \<^verbatim>\<open>Class.hpp\<close> calls, after the Lua reference
  manual. The stack is a list with its top first, so index \<open>-1\<close> is the head. Tables
  live in a store and are reached through references, since the constructor pushes the
  metatable twice and mutates it through either copy. Numbers are integers only, and the
  capacity of the stack and of memory is not bounded.
\<close>

datatype cfunction = NewInstance class_id "cpp_type list"

datatype lua_value =
    LNil
  | LBoolean bool
  | LInteger int
  | LString string
  | LTable addr
  | LCFunction cfunction
  | LClosure cpp_function
  | LUserdata addr

type_synonym lua_table = "lua_value \<rightharpoonup> lua_value"

record userdata =
  ud_size :: nat
  ud_object :: "cpp_object option"   \<comment> \<open>\<open>None\<close>: raw bytes, no object constructed yet\<close>
  ud_metatable :: lua_value

record lua_State =
  stack :: "lua_value list"
  registry :: "string \<Rightarrow> lua_value"
  tables :: "addr \<Rightarrow> lua_table"
  udata :: "userdata list"

text \<open>\<^verbatim>\<open>std::string::c_str()\<close> read as a C string: it ends at the first NUL.\<close>

definition c_str :: "string \<Rightarrow> string" where
  "c_str s = takeWhile (\<lambda>c. c \<noteq> CHR 0x00) s"

definition index2value :: "'a lua_State_scheme \<Rightarrow> int \<Rightarrow> lua_value option" where
  "index2value s idx =
     (let n = int (length (stack s)) in
      if 0 < idx \<and> idx \<le> n then Some (stack s ! nat (n - idx))
      else if idx < 0 \<and> - idx \<le> n then Some (stack s ! nat (- idx - 1))
      else None)"

definition lua_pushstring :: "string \<Rightarrow> 'a lua_State_scheme \<Rightarrow> 'a lua_State_scheme" where
  "lua_pushstring str s = s\<lparr>stack := LString str # stack s\<rparr>"

definition lua_pushcfunction :: "cfunction \<Rightarrow> 'a lua_State_scheme \<Rightarrow> 'a lua_State_scheme" where
  "lua_pushcfunction f s = s\<lparr>stack := LCFunction f # stack s\<rparr>"

definition lua_pushvalue :: "int \<Rightarrow> 'a lua_State_scheme \<Rightarrow> 'a lua_State_scheme option" where
  "lua_pushvalue idx s =
     (case index2value s idx of
        Some v \<Rightarrow> Some (s\<lparr>stack := v # stack s\<rparr>)
      | None \<Rightarrow> None)"

text \<open>
  \<^verbatim>\<open>lua_rawset(L, idx)\<close>: \<open>t[k] = v\<close> without metamethods, where \<open>v\<close> is on top and
  \<open>k\<close> just below; both are popped. The index is resolved before the pop. Storing nil
  removes the key; a nil key or a value at \<open>idx\<close> that is no table is an error.
\<close>

definition lua_rawset :: "int \<Rightarrow> 'a lua_State_scheme \<Rightarrow> 'a lua_State_scheme option" where
  "lua_rawset idx s =
     (case stack s of
        v # k # rest \<Rightarrow>
          (case index2value s idx of
             Some (LTable a) \<Rightarrow>
               if k = LNil then None
               else Some (s\<lparr>stack := rest,
                            tables := (tables s)(a := (tables s a)(k := (if v = LNil then None else Some v)))\<rparr>)
           | _ \<Rightarrow> None)
      | _ \<Rightarrow> None)"

definition lua_pop :: "nat \<Rightarrow> 'a lua_State_scheme \<Rightarrow> 'a lua_State_scheme option" where
  "lua_pop n s = (if n \<le> length (stack s) then Some (s\<lparr>stack := drop n (stack s)\<rparr>) else None)"

text \<open>
  \<^verbatim>\<open>luaL_getmetatable(L, tname)\<close> pushes the registry's value under \<open>tname\<close>; it
  creates nothing, so the value is nil when no metatable was registered under that name.
\<close>

definition luaL_getmetatable :: "string \<Rightarrow> 'a lua_State_scheme \<Rightarrow> 'a lua_State_scheme" where
  "luaL_getmetatable tname s = s\<lparr>stack := registry s tname # stack s\<rparr>"

text \<open>
  \<^verbatim>\<open>lua_newuserdata(L, size)\<close> allocates a fresh block of \<open>size\<close> bytes, pushes the
  full userdata and returns the block's address.
\<close>

definition lua_newuserdata :: "nat \<Rightarrow> 'a lua_State_scheme \<Rightarrow> addr \<times> 'a lua_State_scheme" where
  "lua_newuserdata sz s =
     (length (udata s),
      s\<lparr>stack := LUserdata (length (udata s)) # stack s,
        udata := udata s @ [\<lparr>ud_size = sz, ud_object = None, ud_metatable = LNil\<rparr>]\<rparr>)"

text \<open>
  \<^verbatim>\<open>luaL_setmetatable(L, tname)\<close> sets the metatable of the object on top of the stack
  to the registry's value under \<open>tname\<close> (a table, or nil for none) and leaves the stack
  as it was. Only userdata carry a metatable here.
\<close>

definition luaL_setmetatable :: "string \<Rightarrow> 'a lua_State_scheme \<Rightarrow> 'a lua_State_scheme option" where
  "luaL_setmetatable tname s =
     (case registry s tname of
        LBoolean b \<Rightarrow> None | LInteger i \<Rightarrow> None | LString x \<Rightarrow> None
      | LCFunction f \<Rightarrow> None | LClosure w \<Rightarrow> None | LUserdata u \<Rightarrow> None
      | mt \<Rightarrow>
          (case stack s of
             LUserdata a # rest \<Rightarrow>
               if a < length (udata s)
               then Some (s\<lparr>udata := (udata s)[a := (udata s ! a)\<lparr>ud_metatable := mt\<rparr>]\<rparr>)
               else None
           | _ \<Rightarrow> None))"

section \<open>Collaborators declared outside \<^verbatim>\<open>Class.hpp\<close>\<close>

text \<open>
  Modelled from the spec: the constructor of \<^verbatim>\<open>CppFunction\<close> (in
  \<^verbatim>\<open>CppFunction.hpp\<close>, not among the sources). It builds the wrapper and leaves one
  callable on the stack (``closure is now on stack'', as the call sites say; the spec's
  \<^verbatim>\<open>wrap(nativeCallable) -> RuntimeCallable\<close>).
\<close>

definition CppFunction ::
  "cpp_type \<Rightarrow> cpp_type list \<Rightarrow> native_callable \<Rightarrow> 'a lua_State_scheme
     \<Rightarrow> cpp_function \<times> 'a lua_State_scheme" where
  "CppFunction Ret Params f s =
     (let w = \<lparr>fn_ret = Ret, fn_params = Params, fn_target = f\<rparr>
      in (w, s\<lparr>stack := LClosure w # stack s\<rparr>))"

text \<open>
  Modelled from the spec: \<^verbatim>\<open>detail::getTuple<CstrArgs...>\<close> (not among the sources),
  the spec's \<^verbatim>\<open>decodeArgs<Types...>(runtimeHandle)\<close>: it reads the arguments of the
  call, stack slots \<open>1..n\<close>, as a tuple of the declared types and fails when they do not
  match.
\<close>

fun to_cpp :: "cpp_type \<Rightarrow> lua_value \<Rightarrow> cpp_value option" where
  "to_cpp TInt (LInteger i) = Some (CppInt i)"
| "to_cpp TBool (LBoolean b) = Some (CppBool b)"
| "to_cpp TString (LString x) = Some (CppString x)"
| "to_cpp (TPtr c) (LUserdata a) = Some (CppPtr a)"
| "to_cpp (TConstPtr c) (LUserdata a) = Some (CppPtr a)"
| "to_cpp (TConst T) v = to_cpp T v"
| "to_cpp T v = None"

fun decode :: "cpp_type list \<Rightarrow> lua_value list \<Rightarrow> cpp_value list option" where
  "decode [] vs = Some []"
| "decode (T # Ts) [] = None"
| "decode (T # Ts) (v # vs) =
     (case to_cpp T v of
        None \<Rightarrow> None
      | Some x \<Rightarrow> (case decode Ts vs of None \<Rightarrow> None | Some xs \<Rightarrow> Some (x # xs)))"

definition getTuple :: "cpp_type list \<Rightarrow> 'a lua_State_scheme \<Rightarrow> cpp_value list option" where
  "getTuple CstrArgs s = decode CstrArgs (rev (stack s))"

section \<open>\<^verbatim>\<open>Class<CppClass>\<close>\<close>

text \<open>
  The static data members, one set per instantiation of the template. \<open>Functions\<close> is
  a container of wrappers declared in \<^verbatim>\<open>CppFunction.hpp\<close>; the reference
  \<^verbatim>\<open>Functions& fmap\<close> is the address of one such container.
\<close>

record class_static =
  className :: string
  functions_ptr :: "addr option"    \<comment> \<open>\<open>None\<close> is \<^verbatim>\<open>nullptr\<close>\<close>
  valid :: bool

definition static_init :: class_static where
  "static_init = \<lparr>className = '''', functions_ptr = None, valid = False\<rparr>"

record program = lua_State +
  statics :: "class_id \<Rightarrow> class_static"
  stores :: "addr \<Rightarrow> cpp_function list"

text \<open>\<^verbatim>\<open>functions->emplace_back(new CppFunction<...>(...))\<close>\<close>

definition emplace_back :: "cpp_class \<Rightarrow> cpp_function \<Rightarrow> program \<Rightarrow> program option" where
  "emplace_back cls w s =
     (case functions_ptr (statics s (type_id cls)) of
        None \<Rightarrow> None
      | Some a \<Rightarrow> Some (s\<lparr>stores := (stores s)(a := stores s a @ [w])\<rparr>))"

fun addMember :: "cpp_class \<Rightarrow> string \<Rightarrow> member \<Rightarrow> program \<Rightarrow> program option" where
  "addMember cls funcName (MemFn func) s = do {
     let s = lua_pushstring (c_str funcName) s;
     let (w, s) = CppFunction (m_ret func) (TPtr (type_id cls) # m_args func) (MemberFunction func) s;
     s \<leftarrow> emplace_back cls w s;
     lua_rawset (- 3) s
   }"
| "addMember cls funcName (ConstMemFn func) s = do {
     let s = lua_pushstring (c_str funcName) s;
     let (w, s) = CppFunction (m_ret func) (TPtr (type_id cls) # m_args func) (ConstMemberFunction func) s;
     s \<leftarrow> emplace_back cls w s;
     lua_rawset (- 3) s
   }"
| "addMember cls name (DataMember T t) s =
     (if \<not> is_const T then do {
        let setterName = ''set_'' @ name;
        let s = lua_pushstring (c_str setterName) s;
        let (w, s) = CppFunction TVoid [TPtr (type_id cls), T] (SetterLambda t) s;
        s \<leftarrow> emplace_back cls w s;
        s \<leftarrow> lua_rawset (- 3) s;
        let s = lua_pushstring (c_str name) s;
        let (w, s) = CppFunction T [TConstPtr (type_id cls)] (GetterLambda t) s;
        s \<leftarrow> emplace_back cls w s;
        lua_rawset (- 3) s
      } else do {
        let s = lua_pushstring (c_str name) s;
        let (w, s) = CppFunction T [TConstPtr (type_id cls)] (GetterLambda t) s;
        s \<leftarrow> emplace_back cls w s;
        lua_rawset (- 3) s
      })"

fun addMembers :: "cpp_class \<Rightarrow> (string \<times> member) list \<Rightarrow> program \<Rightarrow> program option" where
  "addMembers cls [] s = Some s"
| "addMembers cls ((n, mem) # mems) s = do {
     s \<leftarrow> addMember cls n mem s;
     addMembers cls mems s
   }"

definition Class ::
  "cpp_class \<Rightarrow> string \<Rightarrow> cpp_type list \<Rightarrow> addr \<Rightarrow> (string \<times> member) list
     \<Rightarrow> program \<Rightarrow> program option" where
  "Class cls n CstrArgs fmap mems s = do {
     let s = s\<lparr>statics := (statics s)(type_id cls := (statics s (type_id cls))\<lparr>className := n\<rparr>)\<rparr>;
     let s = s\<lparr>statics := (statics s)(type_id cls := (statics s (type_id cls))\<lparr>functions_ptr := Some fmap\<rparr>)\<rparr>;
     let s = luaL_getmetatable (c_str (className (statics s (type_id cls)))) s;
     let s = lua_pushstring ''__index'' s;
     s \<leftarrow> lua_pushvalue (- 2) s;
     s \<leftarrow> lua_rawset (- 3) s;
     let s = lua_pushstring ''new'' s;
     let s = lua_pushcfunction (NewInstance (type_id cls) CstrArgs) s;
     s \<leftarrow> lua_rawset (- 3) s;
     s \<leftarrow> addMembers cls mems s;
     s \<leftarrow> lua_pop 1 s;
     Some (s\<lparr>statics := (statics s)(type_id cls := (statics s (type_id cls))\<lparr>valid := True\<rparr>)\<rparr>)
   }"

text \<open>
  Placement new of an object of \<open>sz\<close> bytes in the block at \<open>a\<close>. The block must
  have room for it: in a smaller block the construction writes past the buffer, which is
  undefined behaviour.
\<close>

definition placement_new :: "nat \<Rightarrow> addr \<Rightarrow> cpp_object \<Rightarrow> 'a lua_State_scheme \<Rightarrow> 'a lua_State_scheme option" where
  "placement_new sz a obj s =
     (if a < length (udata s) \<and> sz \<le> ud_size (udata s ! a)
      then Some (s\<lparr>udata := (udata s)[a := (udata s ! a)\<lparr>ud_object := Some obj\<rparr>]\<rparr>)
      else None)"

definition copy :: "cpp_class \<Rightarrow> addr \<Rightarrow> cpp_object \<Rightarrow> 'a lua_State_scheme \<Rightarrow> 'a lua_State_scheme option" where
  "copy cls addrNew other s = do {
     obj \<leftarrow> copy_constructor cls other;
     placement_new (sizeof cls) addrNew obj s
   }"

definition getName :: "cpp_class \<Rightarrow> program \<Rightarrow> string" where
  "getName cls s = className (statics s (type_id cls))"

definition isValid :: "cpp_class \<Rightarrow> program \<Rightarrow> bool" where
  "isValid cls s = valid (statics s (type_id cls))"

definition factory :: "cpp_class \<Rightarrow> addr \<Rightarrow> cpp_value list \<Rightarrow> 'a lua_State_scheme \<Rightarrow> 'a lua_State_scheme option" where
  "factory cls a args s = do {
     obj \<leftarrow> constructor cls args;
     placement_new (sizeof cls) a obj s
   }"

definition newInstance :: "cpp_class \<Rightarrow> cpp_type list \<Rightarrow> program \<Rightarrow> (int \<times> program) option" where
  "newInstance cls CstrArgs s = do {
     args \<leftarrow> getTuple CstrArgs s;
     let (c, s) = lua_newuserdata (sizeof cls) s;
     s \<leftarrow> factory cls c args s;
     s \<leftarrow> luaL_setmetatable (c_str (className (statics s (type_id cls)))) s;
     Some (1, s)
   }"

text \<open>
  The bodies of the two lambdas of \<^verbatim>\<open>addMember\<close>: \<^verbatim>\<open>self->*t = val\<close> and
  \<^verbatim>\<open>return self->*t\<close>. \<open>self\<close> must point to a constructed object.
\<close>

definition setter :: "member_ptr \<Rightarrow> addr \<Rightarrow> cpp_value \<Rightarrow> 'a lua_State_scheme \<Rightarrow> 'a lua_State_scheme option" where
  "setter t self val s =
     (if self < length (udata s) then
        (case ud_object (udata s ! self) of
           None \<Rightarrow> None
         | Some obj \<Rightarrow>
             Some (s\<lparr>udata := (udata s)[self := (udata s ! self)\<lparr>ud_object := Some (obj(t := val))\<rparr>]\<rparr>))
      else None)"

definition getter :: "member_ptr \<Rightarrow> addr \<Rightarrow> 'a lua_State_scheme \<Rightarrow> cpp_value option" where
  "getter t self s =
     (if self < length (udata s) then
        (case ud_object (udata s ! self) of
           None \<Rightarrow> None
         | Some obj \<Rightarrow> Some (obj t))
      else None)"

text \<open>
  Modelled from the spec: the call path of \<^verbatim>\<open>CppFunction\<close> (in
  \<^verbatim>\<open>CppFunction.hpp\<close>, not among the sources): the wrapper hands the decoded
  arguments to the native callable it holds, and a call whose arguments do not fit the
  wrapper's signature fails. A member function runs the bound class's own code on the
  object \<open>self\<close> points to.
\<close>

definition invoke_method ::
  "cpp_class \<Rightarrow> method_ptr \<Rightarrow> cpp_value list \<Rightarrow> 'a lua_State_scheme
     \<Rightarrow> (cpp_value \<times> 'a lua_State_scheme) option" where
  "invoke_method cls func args s =
     (case args of
        CppPtr self # rest \<Rightarrow>
          if self < length (udata s) then
            (case ud_object (udata s ! self) of
               None \<Rightarrow> None
             | Some obj \<Rightarrow>
                 (case method_body cls (m_id func) obj rest of
                    None \<Rightarrow> None
                  | Some (r, obj') \<Rightarrow>
                      Some (r, s\<lparr>udata := (udata s)[self := (udata s ! self)\<lparr>ud_object := Some obj'\<rparr>]\<rparr>)))
          else None
      | _ \<Rightarrow> None)"

definition call ::
  "cpp_class \<Rightarrow> cpp_function \<Rightarrow> cpp_value list \<Rightarrow> 'a lua_State_scheme
     \<Rightarrow> (cpp_value \<times> 'a lua_State_scheme) option" where
  "call cls w args s =
     (if length args \<noteq> length (fn_params w) then None
      else case fn_target w of
        MemberFunction func \<Rightarrow> invoke_method cls func args s
      | ConstMemberFunction func \<Rightarrow> invoke_method cls func args s
      | SetterLambda t \<Rightarrow>
          (case args of
             [CppPtr self, val] \<Rightarrow> map_option (Pair CppVoid) (setter t self val s)
           | _ \<Rightarrow> None)
      | GetterLambda t \<Rightarrow>
          (case args of
             [CppPtr self] \<Rightarrow> map_option (\<lambda>v. (v, s)) (getter t self s)
           | _ \<Rightarrow> None))"

section \<open>The constructor, statement by statement\<close>

text \<open>
  The same constructor as the list of its statements, in the order of \<^verbatim>\<open>Class.hpp\<close>
  lines 74--95, with each call of \<^verbatim>\<open>addMember\<close> expanded into the statements of its
  body. The states between two statements are what code running inside the constructor
  sees (the constructor of \<^verbatim>\<open>CppFunction\<close>, or whoever catches an exception that leaves
  it). \<open>Class_exec_stmts\<close> below proves that running the whole list is \<open>Class\<close>.
\<close>

type_synonym stmt = "program \<Rightarrow> program option"

fun exec_stmts :: "stmt list \<Rightarrow> program \<Rightarrow> program option" where
  "exec_stmts [] s = Some s"
| "exec_stmts (f # fs) s = do { s \<leftarrow> f s; exec_stmts fs s }"

fun addMember_stmts :: "cpp_class \<Rightarrow> string \<Rightarrow> member \<Rightarrow> stmt list" where
  "addMember_stmts cls funcName (MemFn func) =
     [\<lambda>s. Some (lua_pushstring (c_str funcName) s),
      \<lambda>s. (let (w, s) = CppFunction (m_ret func) (TPtr (type_id cls) # m_args func) (MemberFunction func) s
           in emplace_back cls w s),
      lua_rawset (- 3)]"
| "addMember_stmts cls funcName (ConstMemFn func) =
     [\<lambda>s. Some (lua_pushstring (c_str funcName) s),
      \<lambda>s. (let (w, s) = CppFunction (m_ret func) (TPtr (type_id cls) # m_args func) (ConstMemberFunction func) s
           in emplace_back cls w s),
      lua_rawset (- 3)]"
| "addMember_stmts cls name (DataMember T t) =
     (if \<not> is_const T then
        [\<lambda>s. Some (lua_pushstring (c_str (''set_'' @ name)) s),
         \<lambda>s. (let (w, s) = CppFunction TVoid [TPtr (type_id cls), T] (SetterLambda t) s
              in emplace_back cls w s),
         lua_rawset (- 3),
         \<lambda>s. Some (lua_pushstring (c_str name) s),
         \<lambda>s. (let (w, s) = CppFunction T [TConstPtr (type_id cls)] (GetterLambda t) s
              in emplace_back cls w s),
         lua_rawset (- 3)]
      else
        [\<lambda>s. Some (lua_pushstring (c_str name) s),
         \<lambda>s. (let (w, s) = CppFunction T [TConstPtr (type_id cls)] (GetterLambda t) s
              in emplace_back cls w s),
         lua_rawset (- 3)])"

definition Class_stmts ::
  "cpp_class \<Rightarrow> string \<Rightarrow> cpp_type list \<Rightarrow> addr \<Rightarrow> (string \<times> member) list \<Rightarrow> stmt list" where
  "Class_stmts cls n CstrArgs fmap mems =
     [\<lambda>s. Some (s\<lparr>statics := (statics s)(type_id cls := (statics s (type_id cls))\<lparr>className := n\<rparr>)\<rparr>),
      \<lambda>s. Some (s\<lparr>statics := (statics s)(type_id cls := (statics s (type_id cls))\<lparr>functions_ptr := Some fmap\<rparr>)\<rparr>),
      \<lambda>s. Some (luaL_getmetatable (c_str (className (statics s (type_id cls)))) s),
      \<lambda>s. Some (lua_pushstring ''__index'' s),
      lua_pushvalue (- 2),
      lua_rawset (- 3),
      \<lambda>s. Some (lua_pushstring ''new'' s),
      \<lambda>s. Some (lua_pushcfunction (NewInstance (type_id cls) CstrArgs) s),
      lua_rawset (- 3)]
     @ concat (map (\<lambda>(n, mem). addMember_stmts cls n mem) mems)
     @ [lua_pop 1,
        \<lambda>s. Some (s\<lparr>statics := (statics s)(type_id cls := (statics s (type_id cls))\<lparr>valid := True\<rparr>)\<rparr>)]"

section \<open>Runs of the program\<close>

text \<open>
  The operations through which the state of this file is reached: constructing a
  \<^verbatim>\<open>Class<CppClass>\<close> object (the registration), \<^verbatim>\<open>copy\<close>, the runtime calling
  \<^verbatim>\<open>newInstance\<close>, and the runtime calling a wrapper. \<^verbatim>\<open>getName\<close> and
  \<^verbatim>\<open>isValid\<close> only read.
\<close>

datatype operation =
    OpClass cpp_class string "cpp_type list" addr "(string \<times> member) list"
  | OpCopy cpp_class addr cpp_object
  | OpNewInstance cpp_class "cpp_type list"
  | OpCall cpp_class cpp_function "cpp_value list"

fun exec :: "operation \<Rightarrow> program \<Rightarrow> program option" where
  "exec (OpClass cls n CstrArgs fmap mems) s = Class cls n CstrArgs fmap mems s"
| "exec (OpCopy cls addrNew other) s = copy cls addrNew other s"
| "exec (OpNewInstance cls CstrArgs) s = map_option snd (newInstance cls CstrArgs s)"
| "exec (OpCall cls w args) s = map_option snd (call cls w args s)"

fun run :: "operation list \<Rightarrow> program \<Rightarrow> program option" where
  "run [] s = Some s"
| "run (x # xs) s = do { s \<leftarrow> exec x s; run xs s }"

text \<open>Whether an operation is a registration of the class \<open>c\<close>.\<close>

fun registers :: "class_id \<Rightarrow> operation \<Rightarrow> bool" where
  "registers c (OpClass cls n CstrArgs fmap mems) = (type_id cls = c)"
| "registers c x = False"

text \<open>
  The program at startup: a Lua state and the callable stores of the embedding layer,
  with every static data member at its initialiser.
\<close>

definition startup :: "lua_State \<Rightarrow> (addr \<Rightarrow> cpp_function list) \<Rightarrow> program" where
  "startup L st =
     \<lparr>stack = stack L, registry = registry L, tables = tables L, udata = udata L,
      statics = (\<lambda>c. static_init), stores = st\<rparr>"

section \<open>What a registration installs\<close>

text \<open>
  The entries that one member installs, in the order of the raw-sets, and the table
  they leave; \<open>addMember_eq\<close>, \<open>addMembers_eq\<close> and \<open>Class_eq\<close> below prove that this is
  what the code does.
\<close>

fun member_entries :: "cpp_class \<Rightarrow> string \<Rightarrow> member \<Rightarrow> (string \<times> cpp_function) list" where
  "member_entries cls n (MemFn func) =
     [(c_str n, \<lparr>fn_ret = m_ret func, fn_params = TPtr (type_id cls) # m_args func,
                 fn_target = MemberFunction func\<rparr>)]"
| "member_entries cls n (ConstMemFn func) =
     [(c_str n, \<lparr>fn_ret = m_ret func, fn_params = TPtr (type_id cls) # m_args func,
                 fn_target = ConstMemberFunction func\<rparr>)]"
| "member_entries cls n (DataMember T t) =
     (if \<not> is_const T
      then [(c_str (''set_'' @ n), \<lparr>fn_ret = TVoid, fn_params = [TPtr (type_id cls), T],
                                    fn_target = SetterLambda t\<rparr>),
            (c_str n, \<lparr>fn_ret = T, fn_params = [TConstPtr (type_id cls)],
                       fn_target = GetterLambda t\<rparr>)]
      else [(c_str n, \<lparr>fn_ret = T, fn_params = [TConstPtr (type_id cls)],
                       fn_target = GetterLambda t\<rparr>)])"

definition all_entries :: "cpp_class \<Rightarrow> (string \<times> member) list \<Rightarrow> (string \<times> cpp_function) list" where
  "all_entries cls mems = concat (map (\<lambda>(n, mem). member_entries cls n mem) mems)"

fun install :: "(string \<times> cpp_function) list \<Rightarrow> lua_table \<Rightarrow> lua_table" where
  "install [] tb = tb"
| "install ((k, w) # es) tb = install es (tb(LString k \<mapsto> LClosure w))"

text \<open>The keys under which a member writes, and those a list of members writes.\<close>

fun member_keys :: "string \<Rightarrow> member \<Rightarrow> string list" where
  "member_keys n (MemFn func) = [c_str n]"
| "member_keys n (ConstMemFn func) = [c_str n]"
| "member_keys n (DataMember T t) =
     (if \<not> is_const T then [c_str (''set_'' @ n), c_str n] else [c_str n])"

definition written_keys :: "(string \<times> member) list \<Rightarrow> string list" where
  "written_keys mems = concat (map (\<lambda>(n, mem). member_keys n mem) mems)"


text \<open>The wrapper a member leaves under its own name.\<close>

fun bound_callable :: "cpp_class \<Rightarrow> member \<Rightarrow> cpp_function" where
  "bound_callable cls (MemFn func) =
     \<lparr>fn_ret = m_ret func, fn_params = TPtr (type_id cls) # m_args func, fn_target = MemberFunction func\<rparr>"
| "bound_callable cls (ConstMemFn func) =
     \<lparr>fn_ret = m_ret func, fn_params = TPtr (type_id cls) # m_args func, fn_target = ConstMemberFunction func\<rparr>"
| "bound_callable cls (DataMember T t) =
     \<lparr>fn_ret = T, fn_params = [TConstPtr (type_id cls)], fn_target = GetterLambda t\<rparr>"

text \<open>The state a successful registration leaves, given the metatable \<open>mt\<close> found under the name.\<close>

definition registered ::
  "cpp_class \<Rightarrow> string \<Rightarrow> cpp_type list \<Rightarrow> addr \<Rightarrow> (string \<times> member) list \<Rightarrow> addr
     \<Rightarrow> program \<Rightarrow> program" where
  "registered cls n CstrArgs fmap mems mt s =
     s\<lparr>tables := (tables s)(mt := install (all_entries cls mems)
                 ((tables s mt)(LString ''__index'' \<mapsto> LTable mt,
                                LString ''new'' \<mapsto> LCFunction (NewInstance (type_id cls) CstrArgs)))),
       statics := (statics s)(type_id cls := \<lparr>className = n, functions_ptr = Some fmap, valid = True\<rparr>),
       stores := (stores s)(fmap := stores s fmap @ map snd (all_entries cls mems))\<rparr>"

text \<open>The type of the first parameter of the wrapper that the table \<open>mt\<close> holds under \<open>k\<close>.\<close>

definition wrapper_self_type :: "addr \<Rightarrow> string \<Rightarrow> program \<Rightarrow> cpp_type option" where
  "wrapper_self_type mt k s =
     (case tables s mt (LString k) of
        Some (LClosure w) \<Rightarrow> (case fn_params w of [] \<Rightarrow> None | T # Ts \<Rightarrow> Some T)
      | _ \<Rightarrow> None)"

section \<open>Example classes\<close>

text \<open>
  \<^verbatim>\<open>struct Point { int x; int y; Point(int, int); int getSum() const; }\<close> and
  \<^verbatim>\<open>struct Cell { int value; Cell(int); }\<close>, both with the implicit copy constructor.
\<close>

definition getSum :: method_ptr where
  "getSum = \<lparr>m_ret = TInt, m_args = [], m_id = 0\<rparr>"

definition Point :: cpp_class where
  "Point =
     \<lparr>type_id = 0, sizeof = 8,
      constructor = (\<lambda>args. case args of
          [CppInt x, CppInt y] \<Rightarrow> Some ((\<lambda>t. CppVoid)(0 := CppInt x, 1 := CppInt y))
        | _ \<Rightarrow> None),
      copy_constructor = Some,
      method_body = (\<lambda>i obj args.
          if i = 0 then
            (case (obj 0, obj 1) of
               (CppInt x, CppInt y) \<Rightarrow> Some (CppInt (x + y), obj)
             | _ \<Rightarrow> None)
          else None)\<rparr>"

definition Cell :: cpp_class where
  "Cell =
     \<lparr>type_id = 1, sizeof = 4,
      constructor = (\<lambda>args. case args of
          [CppInt v] \<Rightarrow> Some ((\<lambda>t. CppVoid)(0 := CppInt v))
        | _ \<Rightarrow> None),
      copy_constructor = Some,
      method_body = (\<lambda>i obj args. None)\<rparr>"

text \<open>A Lua state in which a metatable (the empty table at address 0) is registered under \<open>Point\<close>.\<close>

definition L0 :: lua_State where
  "L0 = \<lparr>stack = [], registry = (\<lambda>n. LNil)(''Point'' := LTable 0),
         tables = (\<lambda>a. Map.empty), udata = []\<rparr>"

definition P0 :: program where
  "P0 = startup L0 (\<lambda>a. [])"


text \<open>The same program with one live instance, \<^verbatim>\<open>Point(3, 4)\<close>, in the userdata block 0.\<close>

definition point34 :: program where
  "point34 = P0\<lparr>udata := [\<lparr>ud_size = 8, ud_object = Some ((\<lambda>t. CppVoid)(0 := CppInt 3, 1 := CppInt 4)),
                            ud_metatable = LTable 0\<rparr>]\<rparr>"

section \<open>The effect of a registration\<close>

lemma rawset_closure:
  "stack s = LClosure w # LString k # LTable mt # rest \<Longrightarrow>
   lua_rawset (- 3) s = Some (s\<lparr>stack := LTable mt # rest, tables := (tables s)(mt := (tables s mt)(LString k \<mapsto> LClosure w))\<rparr>)"
  by (simp add: lua_rawset_def index2value_def)

lemma addMember_eq:
  assumes "stack s = LTable mt # rest" and "functions_ptr (statics s (type_id cls)) = Some a"
  shows "addMember cls n mem s =
     Some (s\<lparr>tables := (tables s)(mt := install (member_entries cls n mem) (tables s mt)),
             stores := (stores s)(a := stores s a @ map snd (member_entries cls n mem))\<rparr>)"
  using assms
  by (cases mem) (simp_all add: lua_pushstring_def CppFunction_def emplace_back_def rawset_closure Let_def)

lemma all_entries_simps [simp]:
  "all_entries cls [] = []"
  "all_entries cls ((n, mem) # mems) = member_entries cls n mem @ all_entries cls mems"
  by (simp_all add: all_entries_def)

lemma install_append: "install (xs @ ys) tb = install ys (install xs tb)"
  by (induction xs arbitrary: tb) auto

lemma addMembers_eq:
  assumes "stack s = LTable mt # rest" and "functions_ptr (statics s (type_id cls)) = Some a"
  shows "addMembers cls mems s =
     Some (s\<lparr>tables := (tables s)(mt := install (all_entries cls mems) (tables s mt)),
             stores := (stores s)(a := stores s a @ map snd (all_entries cls mems))\<rparr>)"
  using assms
proof (induction mems arbitrary: s)
  case Nil
  then show ?case by simp
next
  case (Cons p mems)
  obtain n mem where p: "p = (n, mem)" by (cases p)
  define s1 where "s1 = s\<lparr>tables := (tables s)(mt := install (member_entries cls n mem) (tables s mt)),
             stores := (stores s)(a := stores s a @ map snd (member_entries cls n mem))\<rparr>"
  have step: "addMember cls n mem s = Some s1"
    unfolding s1_def using Cons.prems by (rule addMember_eq)
  have s1: "stack s1 = LTable mt # rest" "functions_ptr (statics s1 (type_id cls)) = Some a"
    using Cons.prems by (simp_all add: s1_def)
  have "addMembers cls (p # mems) s = addMembers cls mems s1"
    by (simp add: p step)
  also have "\<dots> = Some (s1\<lparr>tables := (tables s1)(mt := install (all_entries cls mems) (tables s1 mt)),
             stores := (stores s1)(a := stores s1 a @ map snd (all_entries cls mems))\<rparr>)"
    using s1 by (rule Cons.IH)
  also have "\<dots> = Some (s\<lparr>tables := (tables s)(mt := install (all_entries cls (p # mems)) (tables s mt)),
             stores := (stores s)(a := stores s a @ map snd (all_entries cls (p # mems)))\<rparr>)"
    by (simp add: s1_def p install_append)
  finally show ?case .
qed

lemma class_static_all_updates [simp]:
  "(r::class_static)\<lparr>className := n, functions_ptr := f, valid := v\<rparr> =
     \<lparr>className = n, functions_ptr = f, valid = v\<rparr>"
  by (cases r) simp

lemma Class_prefix:
  "Class cls n CstrArgs fmap mems s =
     (case registry s (c_str n) of
        LTable mt \<Rightarrow> do {
          s \<leftarrow> addMembers cls mems
                (s\<lparr>stack := LTable mt # stack s,
                   tables := (tables s)(mt := (tables s mt)(LString ''__index'' \<mapsto> LTable mt,
                                LString ''new'' \<mapsto> LCFunction (NewInstance (type_id cls) CstrArgs))),
                   statics := (statics s)(type_id cls := (statics s (type_id cls))\<lparr>className := n, functions_ptr := Some fmap\<rparr>)\<rparr>);
          s \<leftarrow> lua_pop 1 s;
          Some (s\<lparr>statics := (statics s)(type_id cls := (statics s (type_id cls))\<lparr>valid := True\<rparr>)\<rparr>)
        }
      | _ \<Rightarrow> None)"
proof (cases "registry s (c_str n)")
  case (LTable mt)
  have eq: "s\<lparr>statics := (statics s)(type_id cls := (statics s (type_id cls))\<lparr>className := n, functions_ptr := Some fmap\<rparr>),
             stack := LTable mt # stack s,
             tables := (tables s)(mt := (tables s mt)(LString ''__index'' \<mapsto> LTable mt,
                                LString ''new'' \<mapsto> LCFunction (NewInstance (type_id cls) CstrArgs)))\<rparr>
         = s\<lparr>stack := LTable mt # stack s,
             tables := (tables s)(mt := (tables s mt)(LString ''__index'' \<mapsto> LTable mt,
                                LString ''new'' \<mapsto> LCFunction (NewInstance (type_id cls) CstrArgs))),
             statics := (statics s)(type_id cls := (statics s (type_id cls))\<lparr>className := n, functions_ptr := Some fmap\<rparr>)\<rparr>"
    by (rule program.equality) simp_all
  show ?thesis
    using LTable
    by (simp add: Class_def luaL_getmetatable_def lua_pushstring_def lua_pushvalue_def
        lua_pushcfunction_def lua_rawset_def index2value_def Let_def eq)
qed (simp_all add: Class_def luaL_getmetatable_def lua_pushstring_def lua_pushvalue_def
        lua_pushcfunction_def lua_rawset_def index2value_def Let_def)

lemma Class_eq:
  assumes "registry s (c_str n) = LTable mt"
  shows "Class cls n CstrArgs fmap mems s = Some (registered cls n CstrArgs fmap mems mt s)"
proof -
  define s1 where "s1 = s\<lparr>stack := LTable mt # stack s,
                   tables := (tables s)(mt := (tables s mt)(LString ''__index'' \<mapsto> LTable mt,
                                LString ''new'' \<mapsto> LCFunction (NewInstance (type_id cls) CstrArgs))),
                   statics := (statics s)(type_id cls := (statics s (type_id cls))\<lparr>className := n, functions_ptr := Some fmap\<rparr>)\<rparr>"
  have "addMembers cls mems s1 =
     Some (s1\<lparr>tables := (tables s1)(mt := install (all_entries cls mems) (tables s1 mt)),
             stores := (stores s1)(fmap := stores s1 fmap @ map snd (all_entries cls mems))\<rparr>)"
    by (rule addMembers_eq [where rest = "stack s"]) (simp_all add: s1_def)
  then have "Class cls n CstrArgs fmap mems s =
     Some (s1\<lparr>tables := (tables s1)(mt := install (all_entries cls mems) (tables s1 mt)),
             stores := (stores s1)(fmap := stores s1 fmap @ map snd (all_entries cls mems)),
             stack := stack s,
             statics := (statics s1)(type_id cls := (statics s1 (type_id cls))\<lparr>valid := True\<rparr>)\<rparr>)"
    using assms by (simp add: Class_prefix s1_def [symmetric] lua_pop_def) (simp add: s1_def)
  also have "\<dots> = Some (registered cls n CstrArgs fmap mems mt s)"
    unfolding s1_def registered_def option.inject
    by (rule program.equality) simp_all
  finally show ?thesis .
qed

lemma Class_None:
  assumes "\<forall>mt. registry s (c_str n) \<noteq> LTable mt"
  shows "Class cls n CstrArgs fmap mems s = None"
  using assms by (cases "registry s (c_str n)") (simp_all add: Class_prefix)

lemma Class_Some_iff:
  "Class cls n CstrArgs fmap mems s = Some s' \<longleftrightarrow>
     (\<exists>mt. registry s (c_str n) = LTable mt \<and> s' = registered cls n CstrArgs fmap mems mt s)"
proof (cases "\<exists>mt. registry s (c_str n) = LTable mt")
  case True
  then obtain mt where "registry s (c_str n) = LTable mt" ..
  then show ?thesis by (auto simp: Class_eq)
next
  case False
  then show ?thesis by (simp add: Class_None)
qed

lemma registered_simps [simp]:
  "stack (registered cls n CstrArgs fmap mems mt s) = stack s"
  "registry (registered cls n CstrArgs fmap mems mt s) = registry s"
  "udata (registered cls n CstrArgs fmap mems mt s) = udata s"
  "statics (registered cls n CstrArgs fmap mems mt s) =
     (statics s)(type_id cls := \<lparr>className = n, functions_ptr = Some fmap, valid = True\<rparr>)"
  "stores (registered cls n CstrArgs fmap mems mt s) =
     (stores s)(fmap := stores s fmap @ map snd (all_entries cls mems))"
  "tables (registered cls n CstrArgs fmap mems mt s) =
     (tables s)(mt := install (all_entries cls mems)
                 ((tables s mt)(LString ''__index'' \<mapsto> LTable mt,
                                LString ''new'' \<mapsto> LCFunction (NewInstance (type_id cls) CstrArgs))))"
  by (simp_all add: registered_def)

lemma P0_registry: "registry P0 (c_str ''Point'') = LTable 0"
  by (simp add: P0_def startup_def L0_def c_str_def)

lemma all_entries_append [simp]:
  "all_entries cls (xs @ ys) = all_entries cls xs @ all_entries cls ys"
  by (simp add: all_entries_def)

lemma written_keys_simps [simp]:
  "written_keys [] = []"
  "written_keys ((n, mem) # mems) = member_keys n mem @ written_keys mems"
  "written_keys (xs @ ys) = written_keys xs @ written_keys ys"
  by (simp_all add: written_keys_def)

lemma member_entries_keys: "map fst (member_entries cls n mem) = member_keys n mem"
  by (cases mem) simp_all

lemma all_entries_keys: "map fst (all_entries cls mems) = written_keys mems"
  by (induction mems) (auto simp: member_entries_keys)

lemma install_other:
  "x \<notin> LString ` fst ` set es \<Longrightarrow> install es tb x = tb x"
  by (induction es arbitrary: tb) auto

lemma install_unwritten:
  "k \<notin> set (written_keys mems) \<Longrightarrow> install (all_entries cls mems) tb (LString k) = tb (LString k)"
proof -
  assume "k \<notin> set (written_keys mems)"
  moreover have "set (written_keys mems) = fst ` set (all_entries cls mems)"
    unfolding all_entries_keys [of cls, symmetric] by (rule set_map)
  ultimately have "k \<notin> fst ` set (all_entries cls mems)"
    by simp
  then have "LString k \<notin> LString ` fst ` set (all_entries cls mems)"
    by auto
  then show ?thesis by (rule install_other)
qed

lemma c_str_simps [simp]:
  "c_str [] = []"
  "c_str (c # cs) = (if c = CHR 0x00 then [] else c # c_str cs)"
  by (simp_all add: c_str_def)

lemma c_str_append_set: "c_str (''set_'' @ n) = ''set_'' @ c_str n"
  by simp

lemma set_prefix_neq [simp]:
  "CHR ''s'' # CHR ''e'' # CHR ''t'' # CHR ''_'' # xs \<noteq> xs"
proof
  assume "CHR ''s'' # CHR ''e'' # CHR ''t'' # CHR ''_'' # xs = xs"
  then have "length (CHR ''s'' # CHR ''e'' # CHR ''t'' # CHR ''_'' # xs) = length xs"
    by (rule arg_cong)
  then show False by simp
qed

lemma install_member_own:
  "install (member_entries cls n mem) tb (LString (c_str n)) = Some (LClosure (bound_callable cls mem))"
  by (cases mem) simp_all

lemma install_then_member:
  assumes "k \<notin> set (written_keys post)"
  shows "install (all_entries cls (pre @ (n, mem) # post)) tb (LString k) =
         install (member_entries cls n mem) (install (all_entries cls pre) tb) (LString k)"
  using assms by (simp add: install_append install_unwritten)

lemma c_str_set_neq: "c_str (''set_'' @ n) \<noteq> c_str n"
  by simp

lemma install_member_setter:
  "\<not> is_const T \<Longrightarrow>
   install (member_entries cls n (DataMember T t)) tb (LString (c_str (''set_'' @ n))) =
     Some (LClosure \<lparr>fn_ret = TVoid, fn_params = [TPtr (type_id cls), T], fn_target = SetterLambda t\<rparr>)"
  by simp

lemma Class_entry_own:
  assumes "registry s (c_str n) = LTable mt"
      and "c_str name \<notin> set (written_keys post)"
  shows "tables (registered cls n CstrArgs fmap (pre @ (name, mem) # post) mt s) mt (LString (c_str name))
           = Some (LClosure (bound_callable cls mem))"
  unfolding registered_simps fun_upd_same install_then_member [OF assms(2)]
  by (rule install_member_own)

lemma call_setter:
  assumes "self < length (udata u)" and "ud_object (udata u ! self) = Some obj"
  shows "call cls \<lparr>fn_ret = TVoid, fn_params = [TPtr c, T], fn_target = SetterLambda t\<rparr> [CppPtr self, v] u =
           Some (CppVoid, u\<lparr>udata := (udata u)[self := (udata u ! self)\<lparr>ud_object := Some (obj(t := v))\<rparr>]\<rparr>)"
  using assms by (simp add: call_def setter_def)

lemma call_getter:
  assumes "self < length (udata u)" and "ud_object (udata u ! self) = Some obj"
  shows "call cls \<lparr>fn_ret = T, fn_params = [TConstPtr c], fn_target = GetterLambda t\<rparr> [CppPtr self] u =
           Some (obj t, u)"
  using assms by (simp add: call_def getter_def)

lemma decode_length: "decode Ts vs = Some xs \<Longrightarrow> length xs = length Ts"
  by (induction Ts vs arbitrary: xs rule: decode.induct) (auto split: option.splits)

lemma newInstance_eq:
  assumes "getTuple S s = Some args"
      and "constructor cls args = Some obj"
      and "registry s (c_str (className (statics s (type_id cls)))) = LTable mt"
  shows "newInstance cls S s =
           Some (1, s\<lparr>stack := LUserdata (length (udata s)) # stack s,
                       udata := udata s @ [\<lparr>ud_size = sizeof cls, ud_object = Some obj, ud_metatable = LTable mt\<rparr>]\<rparr>)"
  using assms
  by (simp add: newInstance_def lua_newuserdata_def factory_def placement_new_def luaL_setmetatable_def)


lemma exec_stmts_append: "exec_stmts (fs @ gs) s = exec_stmts fs s \<bind> exec_stmts gs"
  by (induction fs arbitrary: s) (auto split: Option.bind_splits)

lemma addMember_exec_stmts: "exec_stmts (addMember_stmts cls n mem) s = addMember cls n mem s"
  by (cases mem) (simp_all add: Let_def split: prod.splits Option.bind_splits)

lemma addMembers_exec_stmts:
  "exec_stmts (concat (map (\<lambda>(n, mem). addMember_stmts cls n mem) mems)) s = addMembers cls mems s"
proof (induction mems arbitrary: s)
  case Nil
  then show ?case by simp
next
  case (Cons p mems)
  obtain n mem where p: "p = (n, mem)" by (cases p)
  show ?case
    by (simp add: p exec_stmts_append addMember_exec_stmts Cons.IH cong: Option.bind_cong)
qed

lemma Class_exec_stmts:
  "exec_stmts (Class_stmts cls n CstrArgs fmap mems) s = Class cls n CstrArgs fmap mems s"
  by (simp add: Class_stmts_def Class_def exec_stmts_append addMembers_exec_stmts Let_def
      cong: Option.bind_cong)

lemma copy_statics: "copy cls a other (s::program) = Some s' \<Longrightarrow> statics s' = statics s"
  by (auto simp: copy_def placement_new_def split: Option.bind_splits if_splits)

lemma newInstance_statics: "newInstance cls S s = Some (r, s') \<Longrightarrow> statics s' = statics s"
  by (auto simp: newInstance_def lua_newuserdata_def factory_def placement_new_def luaL_setmetatable_def
      split: Option.bind_splits if_splits lua_value.splits list.splits)

lemma call_statics: "call cls w args (s::program) = Some (r, s') \<Longrightarrow> statics s' = statics s"
  by (auto simp: call_def invoke_method_def setter_def getter_def
      split: if_splits native_callable.splits list.splits cpp_value.splits option.splits)

lemma addMember_statics: "addMember cls n mem s = Some s' \<Longrightarrow> statics s' = statics s"
  by (cases mem)
     (auto simp: lua_pushstring_def CppFunction_def emplace_back_def lua_rawset_def Let_def
       split: Option.bind_splits if_splits option.splits list.splits lua_value.splits)

lemma addMembers_statics: "addMembers cls mems s = Some s' \<Longrightarrow> statics s' = statics s"
proof (induction mems arbitrary: s)
  case Nil
  then show ?case by simp
next
  case (Cons p mems)
  obtain n mem where p: "p = (n, mem)" by (cases p)
  from Cons.prems obtain s1 where s1: "addMember cls n mem s = Some s1"
    and rest: "addMembers cls mems s1 = Some s'"
    by (auto simp: p split: Option.bind_splits)
  from rest have "statics s' = statics s1" by (rule Cons.IH)
  also from s1 have "statics s1 = statics s" by (rule addMember_statics)
  finally show ?case .
qed

lemma exec_statics:
  assumes "exec x s = Some s'"
  shows "statics s' =
     (case x of
        OpClass cls n S fmap mems \<Rightarrow>
          (statics s)(type_id cls := \<lparr>className = n, functions_ptr = Some fmap, valid = True\<rparr>)
      | _ \<Rightarrow> statics s)"
proof (cases x)
  case (OpClass cls n S fmap mems)
  with assms show ?thesis by (auto simp: Class_Some_iff)
next
  case (OpCopy cls a other)
  with assms show ?thesis by (auto dest: copy_statics)
next
  case (OpNewInstance cls S)
  with assms show ?thesis by (auto dest: newInstance_statics)
next
  case (OpCall cls w args)
  with assms show ?thesis by (auto dest: call_statics)
qed

lemma exec_getName:
  assumes "exec x s = Some s'" and "\<not> registers (type_id cls) x"
  shows "getName cls s' = getName cls s"
  using exec_statics [OF assms(1)] assms(2)
  by (cases x) (simp_all add: getName_def)

lemma exec_isValid:
  assumes "exec x s = Some s'"
  shows "isValid cls s' \<longleftrightarrow> isValid cls s \<or> registers (type_id cls) x"
  using exec_statics [OF assms]
  by (cases x) (auto simp: isValid_def)

lemma run_getName:
  assumes "run xs s = Some s'" and "\<forall>x \<in> set xs. \<not> registers (type_id cls) x"
  shows "getName cls s' = getName cls s"
  using assms
proof (induction xs arbitrary: s)
  case Nil
  then show ?case by simp
next
  case (Cons x xs)
  from Cons.prems(1) obtain s1 where s1: "exec x s = Some s1" and rest: "run xs s1 = Some s'"
    by (auto split: Option.bind_splits)
  from Cons.prems(2) have nx: "\<not> registers (type_id cls) x"
    and nxs: "\<forall>x \<in> set xs. \<not> registers (type_id cls) x"
    by simp_all
  have "getName cls s' = getName cls s1"
    using rest nxs by (rule Cons.IH)
  also have "getName cls s1 = getName cls s"
    using s1 nx by (rule exec_getName)
  finally show ?case .
qed

lemma run_isValid:
  assumes "run xs s = Some s'"
  shows "isValid cls s' \<longleftrightarrow> isValid cls s \<or> (\<exists>x \<in> set xs. registers (type_id cls) x)"
  using assms
proof (induction xs arbitrary: s)
  case Nil
  then show ?case by simp
next
  case (Cons x xs)
  from Cons.prems obtain s1 where s1: "exec x s = Some s1" and rest: "run xs s1 = Some s'"
    by (auto split: Option.bind_splits)
  have "isValid cls s' \<longleftrightarrow> isValid cls s1 \<or> (\<exists>x \<in> set xs. registers (type_id cls) x)"
    using rest by (rule Cons.IH)
  moreover have "isValid cls s1 \<longleftrightarrow> isValid cls s \<or> registers (type_id cls) x"
    using s1 by (rule exec_isValid)
  ultimately show ?case by auto
qed

lemma startup_statics [simp]: "statics (startup L st) = (\<lambda>c. static_init)"
  by (simp add: startup_def)

lemma registered_registry_P0:
  "registry (registered cls n S fmap mems mt P0) (c_str ''Point'') = LTable 0"
  using P0_registry by simp

lemma exec_stmts_preserves:
  assumes "exec_stmts fs s = Some s'"
      and "P s"
      and "\<And>f t t'. f \<in> set fs \<Longrightarrow> f t = Some t' \<Longrightarrow> P t \<Longrightarrow> P t'"
  shows "P s'"
  using assms
proof (induction fs arbitrary: s)
  case Nil
  then show ?case by simp
next
  case (Cons f fs)
  from Cons.prems(1) obtain s1 where s1: "f s = Some s1" and rest: "exec_stmts fs s1 = Some s'"
    by (auto split: Option.bind_splits)
  have s1P: "P s1"
    by (rule Cons.prems(3) [of f s s1]) (simp_all add: s1 Cons.prems(2))
  show ?case
  proof (rule Cons.IH [OF rest s1P])
    fix g t t'
    assume "g \<in> set fs" and "g t = Some t'" and "P t"
    then show "P t'"
      using Cons.prems(3) [of g t t'] by simp
  qed
qed

lemma exec_stmts_prefix_runs:
  assumes "exec_stmts fs s = Some s'"
  shows "\<exists>t. exec_stmts (take k fs) s = Some t"
proof -
  have "exec_stmts (take k fs @ drop k fs) s = Some s'"
    using assms by simp
  then show ?thesis
    unfolding exec_stmts_append by (auto split: Option.bind_splits)
qed

lemma addMember_stmts_statics:
  "f \<in> set (addMember_stmts cls n mem) \<Longrightarrow> f t = Some t' \<Longrightarrow> statics t' = statics t"
  by (cases mem)
     (auto simp: lua_pushstring_def CppFunction_def emplace_back_def lua_rawset_def Let_def
       split: if_splits option.splits list.splits lua_value.splits)

lemma Class_stmts_butlast:
  "butlast (Class_stmts cls n CstrArgs fmap mems) =
     [\<lambda>s. Some (s\<lparr>statics := (statics s)(type_id cls := (statics s (type_id cls))\<lparr>className := n\<rparr>)\<rparr>),
      \<lambda>s. Some (s\<lparr>statics := (statics s)(type_id cls := (statics s (type_id cls))\<lparr>functions_ptr := Some fmap\<rparr>)\<rparr>),
      \<lambda>s. Some (luaL_getmetatable (c_str (className (statics s (type_id cls)))) s),
      \<lambda>s. Some (lua_pushstring ''__index'' s),
      lua_pushvalue (- 2),
      lua_rawset (- 3),
      \<lambda>s. Some (lua_pushstring ''new'' s),
      \<lambda>s. Some (lua_pushcfunction (NewInstance (type_id cls) CstrArgs) s),
      lua_rawset (- 3)]
     @ concat (map (\<lambda>(n, mem). addMember_stmts cls n mem) mems)
     @ [lua_pop 1]"
  by (simp add: Class_stmts_def butlast_append)

lemma Class_stmts_body_valid:
  assumes "f \<in> set (butlast (Class_stmts cls n CstrArgs fmap mems))" and "f t = Some t'"
  shows "valid (statics t' c) = valid (statics t c)"
  using assms unfolding Class_stmts_butlast
  by (auto simp: luaL_getmetatable_def lua_pushstring_def lua_pushcfunction_def lua_pushvalue_def
        lua_rawset_def lua_pop_def
      dest: addMember_stmts_statics
      split: if_splits option.splits list.splits lua_value.splits)

lemma Class_stmts_tail_name:
  assumes "f \<in> set (tl (butlast (Class_stmts cls n CstrArgs fmap mems)))" and "f t = Some t'"
  shows "className (statics t' c) = className (statics t c)"
  using assms unfolding Class_stmts_butlast
  by (auto simp: luaL_getmetatable_def lua_pushstring_def lua_pushcfunction_def lua_pushvalue_def
        lua_rawset_def lua_pop_def
      dest: addMember_stmts_statics
      split: if_splits option.splits list.splits lua_value.splits)

lemma Class_prefix_valid:
  assumes "k < length (Class_stmts cls n CstrArgs fmap mems)"
      and "exec_stmts (take k (Class_stmts cls n CstrArgs fmap mems)) s = Some s'"
  shows "valid (statics s' c) = valid (statics s c)"
proof -
  let ?fs = "Class_stmts cls n CstrArgs fmap mems"
  have tk: "take k ?fs = take k (butlast ?fs)"
    using assms(1) by (simp add: take_butlast)
  show ?thesis
  proof (rule exec_stmts_preserves [where P = "\<lambda>t. valid (statics t c) = valid (statics s c)",
        OF assms(2)])
    show "valid (statics s c) = valid (statics s c)" ..
  next
    fix f t t'
    assume "f \<in> set (take k ?fs)" and ft: "f t = Some t'" and "valid (statics t c) = valid (statics s c)"
    moreover from this have "f \<in> set (butlast ?fs)"
      unfolding tk by (auto dest: in_set_takeD)
    then have "valid (statics t' c) = valid (statics t c)"
      using ft by (rule Class_stmts_body_valid)
    ultimately show "valid (statics t' c) = valid (statics s c)" by simp
  qed
qed

lemma Class_prefix_name:
  assumes "0 < k" and "k < length (Class_stmts cls n CstrArgs fmap mems)"
      and "exec_stmts (take k (Class_stmts cls n CstrArgs fmap mems)) s = Some s'"
  shows "className (statics s' (type_id cls)) = n"
proof -
  let ?fs = "Class_stmts cls n CstrArgs fmap mems"
  let ?s1 = "s\<lparr>statics := (statics s)(type_id cls := (statics s (type_id cls))\<lparr>className := n\<rparr>)\<rparr>"
  from assms(1) obtain j where k: "k = Suc j" by (cases k) auto
  have tk: "take k ?fs = take k (butlast ?fs)"
    using assms(2) by (simp add: take_butlast)
  have hd: "butlast ?fs = hd (butlast ?fs) # tl (butlast ?fs)"
    unfolding Class_stmts_butlast by simp
  have hd1: "hd (butlast ?fs) s = Some ?s1"
    unfolding Class_stmts_butlast by simp
  have "take k ?fs = take (Suc j) (hd (butlast ?fs) # tl (butlast ?fs))"
    using tk hd k by simp
  then have "take k ?fs = hd (butlast ?fs) # take j (tl (butlast ?fs))"
    by simp
  with assms(3) hd1 have run: "exec_stmts (take j (tl (butlast ?fs))) ?s1 = Some s'"
    by simp
  show ?thesis
  proof (rule exec_stmts_preserves [where P = "\<lambda>t. className (statics t (type_id cls)) = n", OF run])
    show "className (statics ?s1 (type_id cls)) = n" by simp
  next
    fix f t t'
    assume "f \<in> set (take j (tl (butlast ?fs)))" and ft: "f t = Some t'"
      and "className (statics t (type_id cls)) = n"
    moreover from this have "f \<in> set (tl (butlast ?fs))"
      by (auto dest: in_set_takeD)
    then have "className (statics t' (type_id cls)) = className (statics t (type_id cls))"
      using ft by (rule Class_stmts_tail_name)
    ultimately show "className (statics t' (type_id cls)) = n" by simp
  qed
qed

lemma Class_prefix_runs:
  assumes "registry s (c_str n) = LTable mt"
  shows "\<exists>t. exec_stmts (take k (Class_stmts cls n CstrArgs fmap mems)) s = Some t"
proof -
  have "exec_stmts (Class_stmts cls n CstrArgs fmap mems) s = Some (registered cls n CstrArgs fmap mems mt s)"
    using assms by (simp add: Class_exec_stmts Class_eq)
  then show ?thesis by (rule exec_stmts_prefix_runs)
qed



section \<open>The claims\<close>

text \<open>
  C1. For a class registered with constructor signature \<open>S\<close>: when the runtime calls the
  entry point installed under \<open>new\<close> with arguments that decode against \<open>S\<close>,
  \<^verbatim>\<open>newInstance\<close> decodes them into a tuple of the length of \<open>S\<close>, obtains a fresh
  userdata block of \<open>sizeof(T)\<close> bytes, constructs in that block exactly the object that
  \<open>T\<close>'s constructor builds from the decoded arguments, tags the block with the metatable
  registered under the class name, leaves the block on top of the stack and returns 1.
\<close>

theorem newInstance_constructs:
  assumes "Class cls n S fmap mems s0 = Some s1"
      and "getTuple S (s1\<lparr>stack := frame\<rparr>) = Some args"
      and "constructor cls args = Some obj"
  shows "\<exists>mt. registry s1 (c_str n) = LTable mt
       \<and> (''new'' \<notin> set (written_keys mems) \<longrightarrow>
            tables s1 mt (LString ''new'') = Some (LCFunction (NewInstance (type_id cls) S)))
       \<and> length args = length S
       \<and> newInstance cls S (s1\<lparr>stack := frame\<rparr>) =
            Some (1, s1\<lparr>stack := LUserdata (length (udata s1)) # frame,
                        udata := udata s1 @ [\<lparr>ud_size = sizeof cls, ud_object = Some obj,
                                              ud_metatable = LTable mt\<rparr>]\<rparr>)"
proof -
  from assms(1) obtain mt where mt: "registry s0 (c_str n) = LTable mt"
    and s1: "s1 = registered cls n S fmap mems mt s0"
    by (auto simp: Class_Some_iff)
  have reg: "registry s1 (c_str n) = LTable mt"
    by (simp add: s1 mt)
  have new: "''new'' \<notin> set (written_keys mems) \<longrightarrow>
            tables s1 mt (LString ''new'') = Some (LCFunction (NewInstance (type_id cls) S))"
    by (simp add: s1 install_unwritten)
  have len: "length args = length S"
    using assms(2) by (auto simp: getTuple_def dest: decode_length)
  have "registry (s1\<lparr>stack := frame\<rparr>)
          (c_str (className (statics (s1\<lparr>stack := frame\<rparr>) (type_id cls)))) = LTable mt"
    by (simp add: s1 mt)
  with assms(2,3)
  have "newInstance cls S (s1\<lparr>stack := frame\<rparr>) =
           Some (1, (s1\<lparr>stack := frame\<rparr>)\<lparr>stack := LUserdata (length (udata (s1\<lparr>stack := frame\<rparr>))) # stack (s1\<lparr>stack := frame\<rparr>),
                       udata := udata (s1\<lparr>stack := frame\<rparr>) @ [\<lparr>ud_size = sizeof cls, ud_object = Some obj, ud_metatable = LTable mt\<rparr>]\<rparr>)"
    by (rule newInstance_eq)
  then have "newInstance cls S (s1\<lparr>stack := frame\<rparr>) =
            Some (1, s1\<lparr>stack := LUserdata (length (udata s1)) # frame,
                        udata := udata s1 @ [\<lparr>ud_size = sizeof cls, ud_object = Some obj,
                                              ud_metatable = LTable mt\<rparr>]\<rparr>)"
    by simp
  with reg new len show ?thesis by blast
qed

theorem newInstance_constructs_witness:
  "\<exists>s1. Class Point ''Point'' [TInt, TInt] 0 [(''x'', DataMember TInt 0), (''getSum'', ConstMemFn getSum)] P0 = Some s1
       \<and> tables s1 0 (LString ''new'') = Some (LCFunction (NewInstance 0 [TInt, TInt]))
       \<and> newInstance Point [TInt, TInt] (s1\<lparr>stack := [LInteger 4, LInteger 3]\<rparr>) =
            Some (1, s1\<lparr>stack := [LUserdata 0, LInteger 4, LInteger 3],
                        udata := [\<lparr>ud_size = 8,
                                   ud_object = Some ((\<lambda>t. CppVoid)(0 := CppInt 3, 1 := CppInt 4)),
                                   ud_metatable = LTable 0\<rparr>]\<rparr>)"
proof -
  let ?mems = "[(''x'', DataMember TInt 0), (''getSum'', ConstMemFn getSum)]"
  let ?s1 = "registered Point ''Point'' [TInt, TInt] 0 ?mems 0 P0"
  have reg: "Class Point ''Point'' [TInt, TInt] 0 ?mems P0 = Some ?s1"
    using P0_registry by (rule Class_eq)
  have args: "getTuple [TInt, TInt] (?s1\<lparr>stack := [LInteger 4, LInteger 3]\<rparr>) = Some [CppInt 3, CppInt 4]"
    by (simp add: getTuple_def)
  have ctor: "constructor Point [CppInt 3, CppInt 4] = Some ((\<lambda>t. CppVoid)(0 := CppInt 3, 1 := CppInt 4))"
    by (simp add: Point_def)
  have ud: "udata ?s1 = []"
    by (simp add: P0_def startup_def L0_def)
  from newInstance_constructs [OF reg args ctor] reg ud show ?thesis
    using P0_registry by (auto simp: Point_def)
qed

text \<open>
  C2. Registering a data member of non-const type \<open>T\<close>, bound by pointer \<open>t\<close>,
  synthesizes a setter wrapper \<^verbatim>\<open>void(CppClass*, T)\<close> and a getter wrapper
  \<^verbatim>\<open>T(const CppClass*)\<close> over \<open>t\<close>, both kept in the callable store; calling
  the setter with (instance, \<open>v\<close>) and then the getter on the same instance returns \<open>v\<close>,
  for every live instance and every value, and the getter leaves the state as it is.
  The metatable holds the setter under \<open>set_name\<close> and the getter under \<open>name\<close>,
  each as long as no later member writes that key.
\<close>

theorem setter_getter_roundtrip:
  assumes "registry s (c_str n) = LTable mt"
      and "\<not> is_const T"
      and "self < length (udata u)"
      and "ud_object (udata u ! self) = Some obj"
  shows "\<exists>s' ws wg u'.
           Class cls n CstrArgs fmap (pre @ (name, DataMember T t) # post) s = Some s'
         \<and> ws = \<lparr>fn_ret = TVoid, fn_params = [TPtr (type_id cls), T], fn_target = SetterLambda t\<rparr>
         \<and> wg = \<lparr>fn_ret = T, fn_params = [TConstPtr (type_id cls)], fn_target = GetterLambda t\<rparr>
         \<and> ws \<in> set (stores s' fmap) \<and> wg \<in> set (stores s' fmap)
         \<and> (c_str (''set_'' @ name) \<notin> set (written_keys post) \<longrightarrow>
               tables s' mt (LString (c_str (''set_'' @ name))) = Some (LClosure ws))
         \<and> (c_str name \<notin> set (written_keys post) \<longrightarrow>
               tables s' mt (LString (c_str name)) = Some (LClosure wg))
         \<and> call cls ws [CppPtr self, v] u = Some (CppVoid, u')
         \<and> call cls wg [CppPtr self] u' = Some (v, u')"
proof -
  let ?mems = "pre @ (name, DataMember T t) # post"
  let ?s' = "registered cls n CstrArgs fmap ?mems mt s"
  let ?ws = "\<lparr>fn_ret = TVoid, fn_params = [TPtr (type_id cls), T], fn_target = SetterLambda t\<rparr>"
  let ?wg = "\<lparr>fn_ret = T, fn_params = [TConstPtr (type_id cls)], fn_target = GetterLambda t\<rparr>"
  let ?u' = "u\<lparr>udata := (udata u)[self := (udata u ! self)\<lparr>ud_object := Some (obj(t := v))\<rparr>]\<rparr>"
  have reg: "Class cls n CstrArgs fmap ?mems s = Some ?s'"
    using assms(1) by (rule Class_eq)
  have "?ws \<in> snd ` set (member_entries cls name (DataMember T t))"
    and "?wg \<in> snd ` set (member_entries cls name (DataMember T t))"
    using assms(2) by (simp_all add: image_iff)
  then have st: "?ws \<in> set (stores ?s' fmap)" "?wg \<in> set (stores ?s' fmap)"
    by auto
  have set_entry: "tables ?s' mt (LString (c_str (''set_'' @ name))) = Some (LClosure ?ws)"
    if k: "c_str (''set_'' @ name) \<notin> set (written_keys post)"
    unfolding registered_simps fun_upd_same install_then_member [OF k]
    using assms(2) by (rule install_member_setter)
  have get_entry: "tables ?s' mt (LString (c_str name)) = Some (LClosure ?wg)"
    if k: "c_str name \<notin> set (written_keys post)"
    using Class_entry_own [OF assms(1) k, of cls CstrArgs fmap pre "DataMember T t"]
    by simp
  have set_call: "call cls ?ws [CppPtr self, v] u = Some (CppVoid, ?u')"
    using assms(3,4) by (rule call_setter)
  have "call cls ?wg [CppPtr self] ?u' = Some ((obj(t := v)) t, ?u')"
    by (rule call_getter [where obj = "obj(t := v)"]) (simp_all add: assms(3))
  then have get_call: "call cls ?wg [CppPtr self] ?u' = Some (v, ?u')"
    by simp
  show ?thesis
    apply (rule exI [where x = ?s'])
    apply (rule exI [where x = ?ws])
    apply (rule exI [where x = ?wg])
    apply (rule exI [where x = ?u'])
    apply (intro conjI impI)
            apply (rule reg)
           apply (rule refl)
          apply (rule refl)
         apply (rule st(1))
        apply (rule st(2))
       apply (erule set_entry)
      apply (erule get_entry)
     apply (rule set_call)
    apply (rule get_call)
    done
qed

theorem setter_getter_roundtrip_witness:
  "\<exists>s' ws wg u'.
       Class Point ''Point'' [TInt, TInt] 0 [(''x'', DataMember TInt 0), (''getSum'', ConstMemFn getSum)] P0 = Some s'
     \<and> tables s' 0 (LString ''set_x'') = Some (LClosure ws)
     \<and> tables s' 0 (LString ''x'') = Some (LClosure wg)
     \<and> call Point ws [CppPtr 0, CppInt 10] point34 = Some (CppVoid, u')
     \<and> call Point wg [CppPtr 0] u' = Some (CppInt 10, u')"
proof -
  have nc: "\<not> is_const TInt" by simp
  have live: "0 < length (udata point34)"
    "ud_object (udata point34 ! 0) = Some ((\<lambda>t. CppVoid)(0 := CppInt 3, 1 := CppInt 4))"
    by (simp_all add: point34_def)
  have k1: "c_str (''set_'' @ ''x'') \<notin> set (written_keys [(''getSum'', ConstMemFn getSum)])"
    and k2: "c_str ''x'' \<notin> set (written_keys [(''getSum'', ConstMemFn getSum)])"
    by simp_all
  from setter_getter_roundtrip [OF P0_registry nc live, of Point "[TInt, TInt]" 0 "[]" "''x''" 0
      "[(''getSum'', ConstMemFn getSum)]" "CppInt 10"]
  obtain s' ws wg u' where
    a: "Class Point ''Point'' [TInt, TInt] 0 ([] @ (''x'', DataMember TInt 0) # [(''getSum'', ConstMemFn getSum)]) P0 = Some s'"
    and b: "c_str (''set_'' @ ''x'') \<notin> set (written_keys [(''getSum'', ConstMemFn getSum)]) \<longrightarrow>
               tables s' 0 (LString (c_str (''set_'' @ ''x''))) = Some (LClosure ws)"
    and c: "c_str ''x'' \<notin> set (written_keys [(''getSum'', ConstMemFn getSum)]) \<longrightarrow>
               tables s' 0 (LString (c_str ''x'')) = Some (LClosure wg)"
    and d: "call Point ws [CppPtr 0, CppInt 10] point34 = Some (CppVoid, u')"
    and e: "call Point wg [CppPtr 0] u' = Some (CppInt 10, u')"
    by (elim exE conjE)
  from b k1 have b': "tables s' 0 (LString (c_str (''set_'' @ ''x''))) = Some (LClosure ws)"
    by (rule mp)
  from c k2 have c': "tables s' 0 (LString (c_str ''x'')) = Some (LClosure wg)"
    by (rule mp)
  from a b' c' d e show ?thesis
    by simp
qed

text \<open>
  C3 (as amended). For a bound const member function, the wrapper is instantiated as
  \<^verbatim>\<open>CppFunction<Ret, CppClass*, Args...>\<close>: its first parameter is the plain pointer
  \<^verbatim>\<open>CppClass*\<close> to the owning instance, exactly as for a non-const member function;
  the method's declared parameters follow and the return type is passed through unchanged.
  The claim as stated, with a pointer to const as first parameter, fails for
  \<^verbatim>\<open>Point::getSum\<close>.
\<close>

theorem const_method_wrapper_signature:
  assumes "registry s (c_str n) = LTable mt"
      and "c_str name \<notin> set (written_keys post)"
  shows "\<exists>s' w. Class cls n CstrArgs fmap (pre @ (name, ConstMemFn func) # post) s = Some s'
           \<and> tables s' mt (LString (c_str name)) = Some (LClosure w)
           \<and> fn_params w = TPtr (type_id cls) # m_args func
           \<and> fn_ret w = m_ret func
           \<and> fn_target w = ConstMemberFunction func"
proof -
  let ?mems = "pre @ (name, ConstMemFn func) # post"
  have "Class cls n CstrArgs fmap ?mems s = Some (registered cls n CstrArgs fmap ?mems mt s)"
    using assms(1) by (rule Class_eq)
  moreover have "tables (registered cls n CstrArgs fmap ?mems mt s) mt (LString (c_str name))
      = Some (LClosure (bound_callable cls (ConstMemFn func)))"
    using assms by (rule Class_entry_own)
  ultimately show ?thesis by simp
qed

theorem const_method_wrapper_signature_witness:
  "\<exists>s' w. Class Point ''Point'' [TInt, TInt] 0 [(''x'', DataMember TInt 0), (''getSum'', ConstMemFn getSum)] P0 = Some s'
         \<and> tables s' 0 (LString ''getSum'') = Some (LClosure w)
         \<and> fn_params w = [TPtr 0]
         \<and> fn_ret w = TInt
         \<and> fn_target w = ConstMemberFunction getSum"
  using const_method_wrapper_signature [of P0 "''Point''" 0 "''getSum''" "[]" Point "[TInt, TInt]" 0
      "[(''x'', DataMember TInt 0)]" getSum, OF P0_registry]
  by (simp add: c_str_def Point_def getSum_def)

theorem const_method_wrapper_not_const_pointer:
  "Class Point ''Point'' [TInt, TInt] 0 [(''getSum'', ConstMemFn getSum)] P0 \<bind> wrapper_self_type 0 ''getSum''
     = Some (TPtr (type_id Point))
   \<and> Class Point ''Point'' [TInt, TInt] 0 [(''getSum'', ConstMemFn getSum)] P0 \<bind> wrapper_self_type 0 ''getSum''
     \<noteq> Some (TConstPtr (type_id Point))"
proof -
  have "Class Point ''Point'' [TInt, TInt] 0 [(''getSum'', ConstMemFn getSum)] P0
     = Some (registered Point ''Point'' [TInt, TInt] 0 [(''getSum'', ConstMemFn getSum)] 0 P0)"
    using P0_registry by (rule Class_eq)
  then show ?thesis
    by (simp add: wrapper_self_type_def)
qed

text \<open>
  C4 (as amended). For a data member of const type bound under \<open>name\<close>,
  \<^verbatim>\<open>addMember\<close> writes exactly one entry, the getter under \<open>name\<close>, and stores
  exactly one wrapper: it has no setter path. A registration leaves the getter under
  \<open>name\<close> (when no later member writes that key) and leaves the key \<open>set_name\<close> as the
  metatable had it before, unless another member writes it. So the claim as stated, that
  no \<open>set_name\<close> entry exists after the registration, fails when another member is bound
  under that key.
\<close>

theorem const_field_getter_only:
  assumes "is_const T"
  shows "(\<forall>u rest a. stack u = LTable mt # rest \<and> functions_ptr (statics u (type_id cls)) = Some a \<longrightarrow>
            addMember cls name (DataMember T t) u =
              Some (u\<lparr>tables := (tables u)(mt := (tables u mt)(LString (c_str name) \<mapsto>
                          LClosure \<lparr>fn_ret = T, fn_params = [TConstPtr (type_id cls)], fn_target = GetterLambda t\<rparr>)),
                      stores := (stores u)(a := stores u a @
                          [\<lparr>fn_ret = T, fn_params = [TConstPtr (type_id cls)], fn_target = GetterLambda t\<rparr>])\<rparr>))
       \<and> (registry s (c_str n) = LTable mt \<longrightarrow>
            (\<exists>s'. Class cls n CstrArgs fmap (pre @ (name, DataMember T t) # post) s = Some s'
                \<and> (c_str name \<notin> set (written_keys post) \<longrightarrow>
                     tables s' mt (LString (c_str name)) =
                       Some (LClosure \<lparr>fn_ret = T, fn_params = [TConstPtr (type_id cls)], fn_target = GetterLambda t\<rparr>))
                \<and> (c_str (''set_'' @ name) \<notin> set (written_keys (pre @ post)) \<longrightarrow>
                     tables s' mt (LString (c_str (''set_'' @ name))) =
                       tables s mt (LString (c_str (''set_'' @ name))))))"
proof (intro conjI allI impI)
  fix u :: program and rest a
  assume "stack u = LTable mt # rest \<and> functions_ptr (statics u (type_id cls)) = Some a"
  then have "stack u = LTable mt # rest" and "functions_ptr (statics u (type_id cls)) = Some a"
    by simp_all
  then have "addMember cls name (DataMember T t) u =
     Some (u\<lparr>tables := (tables u)(mt := install (member_entries cls name (DataMember T t)) (tables u mt)),
             stores := (stores u)(a := stores u a @ map snd (member_entries cls name (DataMember T t)))\<rparr>)"
    by (rule addMember_eq)
  then show "addMember cls name (DataMember T t) u =
              Some (u\<lparr>tables := (tables u)(mt := (tables u mt)(LString (c_str name) \<mapsto>
                          LClosure \<lparr>fn_ret = T, fn_params = [TConstPtr (type_id cls)], fn_target = GetterLambda t\<rparr>)),
                      stores := (stores u)(a := stores u a @
                          [\<lparr>fn_ret = T, fn_params = [TConstPtr (type_id cls)], fn_target = GetterLambda t\<rparr>])\<rparr>)"
    using assms by simp
next
  assume r: "registry s (c_str n) = LTable mt"
  let ?mems = "pre @ (name, DataMember T t) # post"
  let ?s' = "registered cls n CstrArgs fmap ?mems mt s"
  have reg: "Class cls n CstrArgs fmap ?mems s = Some ?s'"
    using r by (rule Class_eq)
  have own: "tables ?s' mt (LString (c_str name)) =
      Some (LClosure \<lparr>fn_ret = T, fn_params = [TConstPtr (type_id cls)], fn_target = GetterLambda t\<rparr>)"
    if k: "c_str name \<notin> set (written_keys post)"
    using Class_entry_own [OF r k, of cls CstrArgs fmap pre "DataMember T t"] by simp
  have unset: "tables ?s' mt (LString (c_str (''set_'' @ name))) = tables s mt (LString (c_str (''set_'' @ name)))"
    if k: "c_str (''set_'' @ name) \<notin> set (written_keys (pre @ post))"
  proof -
    from k assms have "c_str (''set_'' @ name) \<notin> set (written_keys ?mems)"
      by simp
    then have "install (all_entries cls ?mems)
                 ((tables s mt)(LString ''__index'' \<mapsto> LTable mt,
                                LString ''new'' \<mapsto> LCFunction (NewInstance (type_id cls) CstrArgs)))
               (LString (c_str (''set_'' @ name)))
             = ((tables s mt)(LString ''__index'' \<mapsto> LTable mt,
                                LString ''new'' \<mapsto> LCFunction (NewInstance (type_id cls) CstrArgs)))
               (LString (c_str (''set_'' @ name)))"
      by (rule install_unwritten)
    then show ?thesis by simp
  qed
  show "\<exists>s'. Class cls n CstrArgs fmap ?mems s = Some s'
                \<and> (c_str name \<notin> set (written_keys post) \<longrightarrow>
                     tables s' mt (LString (c_str name)) =
                       Some (LClosure \<lparr>fn_ret = T, fn_params = [TConstPtr (type_id cls)], fn_target = GetterLambda t\<rparr>))
                \<and> (c_str (''set_'' @ name) \<notin> set (written_keys (pre @ post)) \<longrightarrow>
                     tables s' mt (LString (c_str (''set_'' @ name))) =
                       tables s mt (LString (c_str (''set_'' @ name))))"
    apply (rule exI [where x = ?s'])
    apply (intro conjI impI)
      apply (rule reg)
     apply (erule own)
    apply (erule unset)
    done
qed

theorem const_field_getter_only_witness:
  "addMember Point ''y'' (DataMember (TConst TInt) 1)
       (P0\<lparr>stack := [LTable 0],
           statics := (statics P0)(0 := \<lparr>className = ''Point'', functions_ptr = Some 0, valid = False\<rparr>)\<rparr>)
     = Some (P0\<lparr>stack := [LTable 0],
           statics := (statics P0)(0 := \<lparr>className = ''Point'', functions_ptr = Some 0, valid = False\<rparr>),
           tables := (tables P0)(0 := [LString ''y'' \<mapsto>
               LClosure \<lparr>fn_ret = TConst TInt, fn_params = [TConstPtr 0], fn_target = GetterLambda 1\<rparr>]),
           stores := (stores P0)(0 := [\<lparr>fn_ret = TConst TInt, fn_params = [TConstPtr 0], fn_target = GetterLambda 1\<rparr>])\<rparr>)
   \<and> (\<exists>s'. Class Point ''Point'' [TInt, TInt] 0
              [(''x'', DataMember TInt 0), (''y'', DataMember (TConst TInt) 1)] P0 = Some s'
          \<and> tables s' 0 (LString ''y'') =
              Some (LClosure \<lparr>fn_ret = TConst TInt, fn_params = [TConstPtr 0], fn_target = GetterLambda 1\<rparr>)
          \<and> tables s' 0 (LString ''set_y'') = None)"
proof -
  let ?u = "P0\<lparr>stack := [LTable 0],
           statics := (statics P0)(0 := \<lparr>className = ''Point'', functions_ptr = Some 0, valid = False\<rparr>)\<rparr>"
  have c: "is_const (TConst TInt)" by simp
  note inst = const_field_getter_only [OF c, of 0 Point "''y''" 1 P0 "''Point''" "[TInt, TInt]" 0
      "[(''x'', DataMember TInt 0)]" "[]"]
  have pre1: "stack ?u = LTable 0 # [] \<and> functions_ptr (statics ?u (type_id Point)) = Some 0"
    by (simp add: Point_def)
  have k1: "c_str ''y'' \<notin> set (written_keys [])"
    and k2: "c_str (''set_'' @ ''y'') \<notin> set (written_keys ([(''x'', DataMember TInt 0)] @ []))"
    by simp_all
  have tb: "tables P0 0 = Map.empty" "stores P0 0 = []"
    by (simp_all add: P0_def startup_def L0_def)
  from inst have i1: "\<forall>u rest a. stack u = LTable 0 # rest \<and> functions_ptr (statics u (type_id Point)) = Some a \<longrightarrow>
            addMember Point ''y'' (DataMember (TConst TInt) 1) u =
              Some (u\<lparr>tables := (tables u)(0 := (tables u 0)(LString (c_str ''y'') \<mapsto>
                          LClosure \<lparr>fn_ret = TConst TInt, fn_params = [TConstPtr (type_id Point)], fn_target = GetterLambda 1\<rparr>)),
                      stores := (stores u)(a := stores u a @
                          [\<lparr>fn_ret = TConst TInt, fn_params = [TConstPtr (type_id Point)], fn_target = GetterLambda 1\<rparr>])\<rparr>)"
    by (rule conjunct1)
  from inst have i2: "registry P0 (c_str ''Point'') = LTable 0 \<longrightarrow>
            (\<exists>s'. Class Point ''Point'' [TInt, TInt] 0 ([(''x'', DataMember TInt 0)] @ (''y'', DataMember (TConst TInt) 1) # []) P0 = Some s'
                \<and> (c_str ''y'' \<notin> set (written_keys []) \<longrightarrow>
                     tables s' 0 (LString (c_str ''y'')) =
                       Some (LClosure \<lparr>fn_ret = TConst TInt, fn_params = [TConstPtr (type_id Point)], fn_target = GetterLambda 1\<rparr>))
                \<and> (c_str (''set_'' @ ''y'') \<notin> set (written_keys ([(''x'', DataMember TInt 0)] @ [])) \<longrightarrow>
                     tables s' 0 (LString (c_str (''set_'' @ ''y''))) =
                       tables P0 0 (LString (c_str (''set_'' @ ''y'')))))"
    by (rule conjunct2)
  from i1 [rule_format, OF pre1]
  have a: "addMember Point ''y'' (DataMember (TConst TInt) 1) ?u =
      Some (?u\<lparr>tables := (tables ?u)(0 := (tables ?u 0)(LString (c_str ''y'') \<mapsto>
                          LClosure \<lparr>fn_ret = TConst TInt, fn_params = [TConstPtr (type_id Point)], fn_target = GetterLambda 1\<rparr>)),
                      stores := (stores ?u)(0 := stores ?u 0 @
                          [\<lparr>fn_ret = TConst TInt, fn_params = [TConstPtr (type_id Point)], fn_target = GetterLambda 1\<rparr>])\<rparr>)" .
  from i2 [rule_format, OF P0_registry] obtain s' where
    b1: "Class Point ''Point'' [TInt, TInt] 0 ([(''x'', DataMember TInt 0)] @ (''y'', DataMember (TConst TInt) 1) # []) P0 = Some s'"
    and b2: "c_str ''y'' \<notin> set (written_keys []) \<longrightarrow>
                     tables s' 0 (LString (c_str ''y'')) =
                       Some (LClosure \<lparr>fn_ret = TConst TInt, fn_params = [TConstPtr (type_id Point)], fn_target = GetterLambda 1\<rparr>)"
    and b3: "c_str (''set_'' @ ''y'') \<notin> set (written_keys ([(''x'', DataMember TInt 0)] @ [])) \<longrightarrow>
                     tables s' 0 (LString (c_str (''set_'' @ ''y''))) =
                       tables P0 0 (LString (c_str (''set_'' @ ''y'')))"
    by (elim exE conjE)
  note b2' = mp [OF b2 k1] and b3' = mp [OF b3 k2]
  from a b1 b2' b3' show ?thesis
    by (simp add: Point_def tb)
qed

theorem const_field_setter_key_counterexample:
  "Class Point ''Point'' [TInt, TInt] 0
       [(''y'', DataMember (TConst TInt) 1), (''set_y'', ConstMemFn getSum)] P0
     = Some (registered Point ''Point'' [TInt, TInt] 0
               [(''y'', DataMember (TConst TInt) 1), (''set_y'', ConstMemFn getSum)] 0 P0)
   \<and> tables (registered Point ''Point'' [TInt, TInt] 0
               [(''y'', DataMember (TConst TInt) 1), (''set_y'', ConstMemFn getSum)] 0 P0)
        0 (LString ''set_y'')
     = Some (LClosure (bound_callable Point (ConstMemFn getSum)))"
proof
  show "Class Point ''Point'' [TInt, TInt] 0
       [(''y'', DataMember (TConst TInt) 1), (''set_y'', ConstMemFn getSum)] P0
     = Some (registered Point ''Point'' [TInt, TInt] 0
               [(''y'', DataMember (TConst TInt) 1), (''set_y'', ConstMemFn getSum)] 0 P0)"
    using P0_registry by (rule Class_eq)
  show "tables (registered Point ''Point'' [TInt, TInt] 0
               [(''y'', DataMember (TConst TInt) 1), (''set_y'', ConstMemFn getSum)] 0 P0)
        0 (LString ''set_y'')
     = Some (LClosure (bound_callable Point (ConstMemFn getSum)))"
    by simp
qed

text \<open>
  C5. The claim, and the comment on \<^verbatim>\<open>getName\<close> in the header (``returns className if
  this class has been created, otherwise returns an empty string''), say that the name is
  returned only once the registration has completed. The code assigns \<^verbatim>\<open>className\<close>
  in the first statement of the constructor and \<^verbatim>\<open>getName\<close> returns it unguarded: in
  the registration of \<open>Point\<close>, \<^verbatim>\<open>getName\<close> is empty before the constructor, and is
  \<open>Point\<close> after its first statement and at every later point inside the constructor,
  while \<^verbatim>\<open>isValid\<close> is still false there.
\<close>

theorem getName_set_before_registration_completes:
  "getName Point P0 = ''''
   \<and> \<not> isValid Point P0
   \<and> exec_stmts (take 1 (Class_stmts Point ''Point'' [TInt, TInt] 0 [(''x'', DataMember TInt 0)])) P0
       = Some (P0\<lparr>statics := (statics P0)(0 := \<lparr>className = ''Point'', functions_ptr = None, valid = False\<rparr>)\<rparr>)
   \<and> getName Point
        (P0\<lparr>statics := (statics P0)(0 := \<lparr>className = ''Point'', functions_ptr = None, valid = False\<rparr>)\<rparr>)
       = ''Point''
   \<and> \<not> isValid Point
        (P0\<lparr>statics := (statics P0)(0 := \<lparr>className = ''Point'', functions_ptr = None, valid = False\<rparr>)\<rparr>)
   \<and> list_all
        (\<lambda>k. case exec_stmts (take k (Class_stmts Point ''Point'' [TInt, TInt] 0 [(''x'', DataMember TInt 0)])) P0 of
               None \<Rightarrow> False
             | Some s \<Rightarrow> getName Point s = ''Point'' \<and> \<not> isValid Point s)
        [1 ..< length (Class_stmts Point ''Point'' [TInt, TInt] 0 [(''x'', DataMember TInt 0)])]
   \<and> Class Point ''Point'' [TInt, TInt] 0 [(''x'', DataMember TInt 0)] P0
       = Some (registered Point ''Point'' [TInt, TInt] 0 [(''x'', DataMember TInt 0)] 0 P0)
   \<and> getName Point (registered Point ''Point'' [TInt, TInt] 0 [(''x'', DataMember TInt 0)] 0 P0) = ''Point''
   \<and> isValid Point (registered Point ''Point'' [TInt, TInt] 0 [(''x'', DataMember TInt 0)] 0 P0)"
proof -
  let ?fs = "Class_stmts Point ''Point'' [TInt, TInt] 0 [(''x'', DataMember TInt 0)]"
  let ?s1 = "P0\<lparr>statics := (statics P0)(0 := \<lparr>className = ''Point'', functions_ptr = None, valid = False\<rparr>)\<rparr>"
  have st0: "statics P0 = (\<lambda>c. static_init)"
    by (simp add: P0_def)
  have a: "getName Point P0 = ''''" and b: "\<not> isValid Point P0"
    by (simp_all add: getName_def isValid_def st0 static_init_def)
  have "take 1 ?fs = [\<lambda>s. Some (s\<lparr>statics := (statics s)(type_id Point :=
            (statics s (type_id Point))\<lparr>className := ''Point''\<rparr>)\<rparr>)]"
    by (simp add: Class_stmts_def)
  then have c: "exec_stmts (take 1 ?fs) P0 = Some ?s1"
    by (simp add: st0 static_init_def Point_def)
  have d: "getName Point ?s1 = ''Point''" and e: "\<not> isValid Point ?s1"
    by (simp_all add: getName_def isValid_def Point_def)
  have f: "case exec_stmts (take k ?fs) P0 of None \<Rightarrow> False
             | Some s \<Rightarrow> getName Point s = ''Point'' \<and> \<not> isValid Point s"
    if "k \<in> set [1 ..< length ?fs]" for k
  proof -
    from that have k: "0 < k" "k < length ?fs" by simp_all
    from Class_prefix_runs [OF P0_registry] obtain t where t: "exec_stmts (take k ?fs) P0 = Some t"
      by blast
    have "className (statics t (type_id Point)) = ''Point''"
      using k t by (rule Class_prefix_name)
    moreover have "valid (statics t (type_id Point)) = valid (statics P0 (type_id Point))"
      using k(2) t by (rule Class_prefix_valid)
    ultimately show ?thesis
      using b by (simp add: t getName_def isValid_def)
  qed
  then have g: "list_all
        (\<lambda>k. case exec_stmts (take k ?fs) P0 of
               None \<Rightarrow> False
             | Some s \<Rightarrow> getName Point s = ''Point'' \<and> \<not> isValid Point s)
        [1 ..< length ?fs]"
    unfolding list_all_iff by blast
  have h: "Class Point ''Point'' [TInt, TInt] 0 [(''x'', DataMember TInt 0)] P0
       = Some (registered Point ''Point'' [TInt, TInt] 0 [(''x'', DataMember TInt 0)] 0 P0)"
    using P0_registry by (rule Class_eq)
  have i: "getName Point (registered Point ''Point'' [TInt, TInt] 0 [(''x'', DataMember TInt 0)] 0 P0) = ''Point''"
    and j: "isValid Point (registered Point ''Point'' [TInt, TInt] 0 [(''x'', DataMember TInt 0)] 0 P0)"
    by (simp_all add: getName_def isValid_def)
  from a b c d e g h i j show ?thesis by (intro conjI)
qed

text \<open>
  C6. \<^verbatim>\<open>isValid\<close> of a class is false at startup; after an operation it holds exactly
  when it held before or the operation was a completed registration of the class, so over
  a run it holds at the end exactly when it held at the start or the run registers the
  class: nothing resets it. Inside a registration, complete or not, the flag is what it
  was on entry after every statement of the constructor but the last: the constructor is
  the list of its statements, and every proper prefix of that list, run from any state,
  leaves the flag unchanged. So it becomes true only at the last statement, and the state
  in which a registration has set it has the metatable wired to itself, the constructor
  entry point installed and every member bound.
\<close>

theorem valid_lifecycle:
  "\<not> isValid cls (startup L st)
   \<and> (\<forall>s'. exec x s = Some s' \<longrightarrow> (isValid cls s' \<longleftrightarrow> isValid cls s \<or> registers (type_id cls) x))
   \<and> (\<forall>s'. run xs s = Some s' \<longrightarrow>
         (isValid cls s' \<longleftrightarrow> isValid cls s \<or> (\<exists>x \<in> set xs. registers (type_id cls) x)))
   \<and> (\<forall>u u' c ms. addMembers c ms u = Some u' \<longrightarrow> isValid cls u' = isValid cls u)
   \<and> (\<forall>s'. Class cls n S fmap mems s = Some s' \<longrightarrow>
         isValid cls s'
         \<and> (\<exists>mt. registry s (c_str n) = LTable mt
               \<and> tables s' mt = install (all_entries cls mems)
                     ((tables s mt)(LString ''__index'' \<mapsto> LTable mt,
                                    LString ''new'' \<mapsto> LCFunction (NewInstance (type_id cls) S)))))
   \<and> (\<forall>k s'. k < length (Class_stmts rc n S fmap mems)
              \<and> exec_stmts (take k (Class_stmts rc n S fmap mems)) s = Some s' \<longrightarrow>
         isValid cls s' = isValid cls s)
   \<and> exec_stmts (Class_stmts rc n S fmap mems) s = Class rc n S fmap mems s"
proof (intro conjI allI impI)
  show "\<not> isValid cls (startup L st)"
    by (simp add: isValid_def static_init_def)
next
  show "exec_stmts (Class_stmts rc n S fmap mems) s = Class rc n S fmap mems s"
    by (rule Class_exec_stmts)
next
  fix k s'
  assume "k < length (Class_stmts rc n S fmap mems)
              \<and> exec_stmts (take k (Class_stmts rc n S fmap mems)) s = Some s'"
  then have "k < length (Class_stmts rc n S fmap mems)"
    and "exec_stmts (take k (Class_stmts rc n S fmap mems)) s = Some s'"
    by simp_all
  then have "valid (statics s' (type_id cls)) = valid (statics s (type_id cls))"
    by (rule Class_prefix_valid)
  then show "isValid cls s' = isValid cls s"
    by (simp add: isValid_def)
next
  fix s' assume "Class cls n S fmap mems s = Some s'"
  then obtain mt where mt: "registry s (c_str n) = LTable mt"
    and s': "s' = registered cls n S fmap mems mt s"
    by (auto simp: Class_Some_iff)
  show "isValid cls s'"
    by (simp add: s' isValid_def)
  have "tables s' mt = install (all_entries cls mems)
                     ((tables s mt)(LString ''__index'' \<mapsto> LTable mt,
                                    LString ''new'' \<mapsto> LCFunction (NewInstance (type_id cls) S)))"
    by (simp add: s')
  with mt show "\<exists>mt. registry s (c_str n) = LTable mt
               \<and> tables s' mt = install (all_entries cls mems)
                     ((tables s mt)(LString ''__index'' \<mapsto> LTable mt,
                                    LString ''new'' \<mapsto> LCFunction (NewInstance (type_id cls) S)))"
    by blast
next
  fix s' assume "exec x s = Some s'"
  then show "isValid cls s' \<longleftrightarrow> isValid cls s \<or> registers (type_id cls) x"
    by (rule exec_isValid)
next
  fix s' assume "run xs s = Some s'"
  then show "isValid cls s' \<longleftrightarrow> isValid cls s \<or> (\<exists>x \<in> set xs. registers (type_id cls) x)"
    by (rule run_isValid)
next
  fix u u' c ms assume "addMembers c ms u = Some u'"
  then have "statics u' = statics u" by (rule addMembers_statics)
  then show "isValid cls u' = isValid cls u" by (simp add: isValid_def)
qed

theorem valid_lifecycle_witness:
  "\<not> isValid Point P0
   \<and> (\<exists>s'. exec (OpClass Point ''Point'' [TInt, TInt] 0 [(''x'', DataMember TInt 0)]) point34 = Some s'
          \<and> isValid Point s')
   \<and> (\<exists>s'. run [OpCall Point (bound_callable Point (DataMember TInt 0)) [CppPtr 0],
                  OpCopy Point 0 (\<lambda>t. CppInt 1),
                  OpClass Cell ''Point'' [TInt] 1 []] point34 = Some s'
          \<and> \<not> isValid Point s')
   \<and> (\<exists>s'. run [OpClass Point ''Point'' [TInt, TInt] 0 [(''x'', DataMember TInt 0)],
                  OpCall Point (bound_callable Point (DataMember TInt 0)) [CppPtr 0],
                  OpCopy Point 0 (\<lambda>t. CppInt 1),
                  OpClass Cell ''Point'' [TInt] 1 []] point34 = Some s'
          \<and> isValid Point s')
   \<and> (\<exists>u'. addMembers Point [(''x'', DataMember TInt 0)]
            (P0\<lparr>stack := [LTable 0],
                statics := (statics P0)(0 := \<lparr>className = ''Point'', functions_ptr = Some 0, valid = False\<rparr>)\<rparr>)
            = Some u'
          \<and> \<not> isValid Point u')
   \<and> (\<exists>s'. Class Point ''Point'' [TInt, TInt] 0 [(''x'', DataMember TInt 0)] point34 = Some s'
          \<and> isValid Point s'
          \<and> tables s' 0 (LString ''__index'') = Some (LTable 0)
          \<and> tables s' 0 (LString ''new'') = Some (LCFunction (NewInstance 0 [TInt, TInt]))
          \<and> tables s' 0 (LString ''x'') = Some (LClosure (bound_callable Point (DataMember TInt 0))))
   \<and> (\<exists>t. exec_stmts (take 16 (Class_stmts Point ''Point'' [TInt, TInt] 0 [(''x'', DataMember TInt 0)])) point34
            = Some t
          \<and> \<not> isValid Point t)
   \<and> length (Class_stmts Point ''Point'' [TInt, TInt] 0 [(''x'', DataMember TInt 0)]) = 17"
proof -
  let ?reg = "OpClass Point ''Point'' [TInt, TInt] 0 [(''x'', DataMember TInt 0)]"
  let ?get = "OpCall Point (bound_callable Point (DataMember TInt 0)) [CppPtr 0]"
  let ?cp = "OpCopy Point 0 (\<lambda>t. CppInt 1)"
  let ?cell = "OpClass Cell ''Point'' [TInt] 1 []"
  let ?u = "P0\<lparr>stack := [LTable 0],
                statics := (statics P0)(0 := \<lparr>className = ''Point'', functions_ptr = Some 0, valid = False\<rparr>)\<rparr>"
  have init: "\<not> isValid Point point34"
    by (simp add: isValid_def point34_def P0_def static_init_def)
  have r34: "registry point34 (c_str ''Point'') = LTable 0"
    using P0_registry by (simp add: point34_def)
  have ex1: "\<exists>s'. exec ?reg point34 = Some s'"
    by (simp add: Class_eq [OF r34])
  have get: "exec ?get s = Some s"
    if "udata s = [\<lparr>ud_size = 8, ud_object = Some obj, ud_metatable = LTable 0\<rparr>]" for s obj
    using that by (simp add: call_def getter_def)
  have cp: "exec ?cp s = Some (s\<lparr>udata := [\<lparr>ud_size = 8, ud_object = Some (\<lambda>t. CppInt 1), ud_metatable = LTable 0\<rparr>]\<rparr>)"
    if "udata s = [\<lparr>ud_size = 8, ud_object = Some obj, ud_metatable = LTable 0\<rparr>]" for s obj
    using that by (simp add: copy_def placement_new_def Point_def)
  have cell: "\<exists>s'. exec ?cell s = Some s'" if "registry s (c_str ''Point'') = LTable 0" for s
    by (simp add: Class_eq [OF that])
  have ud34: "udata point34 = [\<lparr>ud_size = 8, ud_object = Some ((\<lambda>t. CppVoid)(0 := CppInt 3, 1 := CppInt 4)),
                            ud_metatable = LTable 0\<rparr>]"
    by (simp add: point34_def)
  let ?q = "point34\<lparr>udata := [\<lparr>ud_size = 8, ud_object = Some (\<lambda>t. CppInt 1), ud_metatable = LTable 0\<rparr>]\<rparr>"
  have g2: "exec ?get point34 = Some point34" using ud34 by (rule get)
  have c2: "exec ?cp point34 = Some ?q" using ud34 by (rule cp)
  have "registry ?q (c_str ''Point'') = LTable 0" using r34 by simp
  then obtain t2 where e2: "exec ?cell ?q = Some t2" using cell by blast
  have "run [?get, ?cp, ?cell] point34 = Some t2"
    by (simp only: run.simps Option.bind.simps g2 c2 e2)
  then have ex2: "\<exists>s'. run [?get, ?cp, ?cell] point34 = Some s'" ..
  let ?p = "registered Point ''Point'' [TInt, TInt] 0 [(''x'', DataMember TInt 0)] 0 point34"
  have regp: "exec ?reg point34 = Some ?p"
    by (simp add: Class_eq [OF r34])
  have udp: "udata ?p = [\<lparr>ud_size = 8, ud_object = Some ((\<lambda>t. CppVoid)(0 := CppInt 3, 1 := CppInt 4)),
                            ud_metatable = LTable 0\<rparr>]"
    by (simp add: point34_def)
  let ?pq = "?p\<lparr>udata := [\<lparr>ud_size = 8, ud_object = Some (\<lambda>t. CppInt 1), ud_metatable = LTable 0\<rparr>]\<rparr>"
  have g3: "exec ?get ?p = Some ?p" using udp by (rule get)
  have c3: "exec ?cp ?p = Some ?pq" using udp by (rule cp)
  have "registry ?pq (c_str ''Point'') = LTable 0" using r34 by simp
  then obtain t3 where e3: "exec ?cell ?pq = Some t3" using cell by blast
  have "run [?reg, ?get, ?cp, ?cell] point34 = Some t3"
    by (simp only: run.simps Option.bind.simps regp g3 c3 e3)
  then have ex3: "\<exists>s'. run [?reg, ?get, ?cp, ?cell] point34 = Some s'" ..
  have "stack ?u = LTable 0 # []" and "functions_ptr (statics ?u (type_id Point)) = Some 0"
    by (simp_all add: Point_def)
  then have "addMembers Point [(''x'', DataMember TInt 0)] ?u =
     Some (?u\<lparr>tables := (tables ?u)(0 := install (all_entries Point [(''x'', DataMember TInt 0)]) (tables ?u 0)),
             stores := (stores ?u)(0 := stores ?u 0 @ map snd (all_entries Point [(''x'', DataMember TInt 0)]))\<rparr>)"
    by (rule addMembers_eq)
  then have ex4: "\<exists>u'. addMembers Point [(''x'', DataMember TInt 0)] ?u = Some u'" ..
  have nu: "\<not> isValid Point ?u"
    by (simp add: isValid_def Point_def)
  have np: "\<not> isValid Point P0"
    using valid_lifecycle [where cls = Point and L = L0 and st = "\<lambda>a. []", folded P0_def] by blast
  have others: "\<not> (\<exists>x \<in> set [?get, ?cp, ?cell]. registers (type_id Point) x)"
    by (simp add: Point_def Cell_def)
  have some: "\<exists>x \<in> set [?reg, ?get, ?cp, ?cell]. registers (type_id Point) x"
    by simp
  from ex1 obtain s1 where s1: "exec ?reg point34 = Some s1" ..
  then have v1: "isValid Point s1"
    using valid_lifecycle [where cls = Point and x = ?reg and s = point34] by simp
  from ex2 obtain s2 where s2: "run [?get, ?cp, ?cell] point34 = Some s2" ..
  then have v2: "\<not> isValid Point s2"
    using valid_lifecycle [where cls = Point and xs = "[?get, ?cp, ?cell]" and s = point34] init others
    by blast
  from ex3 obtain s3 where s3: "run [?reg, ?get, ?cp, ?cell] point34 = Some s3" ..
  then have v3: "isValid Point s3"
    using valid_lifecycle [where cls = Point and xs = "[?reg, ?get, ?cp, ?cell]" and s = point34] some
    by blast
  from ex4 obtain u' where u': "addMembers Point [(''x'', DataMember TInt 0)] ?u = Some u'" ..
  then have v4: "\<not> isValid Point u'"
    using valid_lifecycle [where cls = Point] nu by blast
  from s1 have c1: "Class Point ''Point'' [TInt, TInt] 0 [(''x'', DataMember TInt 0)] point34 = Some s1"
    by simp
  with valid_lifecycle [where cls = Point and n = "''Point''" and S = "[TInt, TInt]" and fmap = 0
      and mems = "[(''x'', DataMember TInt 0)]" and s = point34]
  obtain mt where mt: "registry point34 (c_str ''Point'') = LTable mt"
    and tb: "tables s1 mt = install (all_entries Point [(''x'', DataMember TInt 0)])
                     ((tables point34 mt)(LString ''__index'' \<mapsto> LTable mt,
                                    LString ''new'' \<mapsto> LCFunction (NewInstance (type_id Point) [TInt, TInt])))"
    by blast
  from mt r34 have mt0: "mt = 0" by simp
  have w1: "tables s1 0 (LString ''__index'') = Some (LTable 0)"
    and w2: "tables s1 0 (LString ''new'') = Some (LCFunction (NewInstance 0 [TInt, TInt]))"
    and w3: "tables s1 0 (LString ''x'') = Some (LClosure (bound_callable Point (DataMember TInt 0)))"
    using tb by (simp_all add: mt0 Point_def)
  have last: "\<exists>s'. Class Point ''Point'' [TInt, TInt] 0 [(''x'', DataMember TInt 0)] point34 = Some s'
          \<and> isValid Point s'
          \<and> tables s' 0 (LString ''__index'') = Some (LTable 0)
          \<and> tables s' 0 (LString ''new'') = Some (LCFunction (NewInstance 0 [TInt, TInt]))
          \<and> tables s' 0 (LString ''x'') = Some (LClosure (bound_callable Point (DataMember TInt 0)))"
    using c1 v1 w1 w2 w3 by (intro exI [where x = s1] conjI)
  from np s1 v1 s2 v2 s3 v3 u' v4 have "\<not> isValid Point P0
   \<and> (\<exists>s'. exec ?reg point34 = Some s' \<and> isValid Point s')
   \<and> (\<exists>s'. run [?get, ?cp, ?cell] point34 = Some s' \<and> \<not> isValid Point s')
   \<and> (\<exists>s'. run [?reg, ?get, ?cp, ?cell] point34 = Some s' \<and> isValid Point s')
   \<and> (\<exists>u'. addMembers Point [(''x'', DataMember TInt 0)] ?u = Some u' \<and> \<not> isValid Point u')"
    by blast
  moreover have len: "length (Class_stmts Point ''Point'' [TInt, TInt] 0 [(''x'', DataMember TInt 0)]) = 17"
    by (simp add: Class_stmts_def)
  moreover have "\<exists>t. exec_stmts (take 16 (Class_stmts Point ''Point'' [TInt, TInt] 0 [(''x'', DataMember TInt 0)])) point34
            = Some t
          \<and> \<not> isValid Point t"
  proof -
    from Class_prefix_runs [OF r34] obtain t where
      t: "exec_stmts (take 16 (Class_stmts Point ''Point'' [TInt, TInt] 0 [(''x'', DataMember TInt 0)])) point34 = Some t"
      by blast
    have "16 < length (Class_stmts Point ''Point'' [TInt, TInt] 0 [(''x'', DataMember TInt 0)])"
      by (simp add: len)
    with t have "isValid Point t = isValid Point point34"
      using valid_lifecycle [where cls = Point and rc = Point and n = "''Point''" and S = "[TInt, TInt]"
          and fmap = 0 and mems = "[(''x'', DataMember TInt 0)]" and s = point34]
      by blast
    with init t show ?thesis by blast
  qed
  ultimately show ?thesis
    using last by (elim conjE) (intro conjI; assumption)
qed

text \<open>
  C7 (as amended). Registering two distinct classes \<open>T1\<close> and \<open>T2\<close> under the same name
  binds both to the one metatable that the registry holds under that name: afterwards the
  type tag of either class is that table; every entry of \<open>T1\<close> is still in it, except
  under the keys that the registration of \<open>T2\<close> writes (\<open>__index\<close>, \<open>new\<close> and the keys
  of the members of \<open>T2\<close>); and \<open>new\<close> is the entry point of \<open>T2\<close> unless a member of
  \<open>T2\<close> is bound under the key \<open>new\<close>. Each registration appends its wrappers to the
  store its caller passes: passed different stores, each store gains the wrappers of its
  own class only; passed the same store, that store gains the wrappers of both. The static
  state of the two classes (name, valid flag, store pointer) is kept apart: registering
  \<open>T2\<close> leaves that of \<open>T1\<close> as it was, and the other way round.
\<close>

theorem same_name_shares_metatable:
  assumes "type_id T1 \<noteq> type_id T2"
      and "registry s (c_str n) = LTable mt"
  shows "\<exists>s1 s2. Class T1 n S1 f1 mems1 s = Some s1
           \<and> Class T2 n S2 f2 mems2 s1 = Some s2
           \<and> registry s2 (c_str (getName T1 s2)) = LTable mt
           \<and> registry s2 (c_str (getName T2 s2)) = LTable mt
           \<and> (\<forall>k. k \<notin> set (written_keys mems2) \<and> k \<noteq> ''new'' \<and> k \<noteq> ''__index'' \<longrightarrow>
                  tables s2 mt (LString k) = tables s1 mt (LString k))
           \<and> (''new'' \<notin> set (written_keys mems2) \<longrightarrow>
                  tables s2 mt (LString ''new'') = Some (LCFunction (NewInstance (type_id T2) S2)))
           \<and> statics s1 (type_id T1) = \<lparr>className = n, functions_ptr = Some f1, valid = True\<rparr>
           \<and> statics s2 (type_id T1) = statics s1 (type_id T1)
           \<and> statics s1 (type_id T2) = statics s (type_id T2)
           \<and> statics s2 (type_id T2) = \<lparr>className = n, functions_ptr = Some f2, valid = True\<rparr>
           \<and> stores s1 f1 = stores s f1 @ map snd (all_entries T1 mems1)
           \<and> stores s2 f2 = stores s1 f2 @ map snd (all_entries T2 mems2)
           \<and> (f1 \<noteq> f2 \<longrightarrow> stores s2 f1 = stores s f1 @ map snd (all_entries T1 mems1))
           \<and> (f1 \<noteq> f2 \<longrightarrow> stores s2 f2 = stores s f2 @ map snd (all_entries T2 mems2))
           \<and> (f1 = f2 \<longrightarrow> stores s2 f1 =
                  stores s f1 @ map snd (all_entries T1 mems1) @ map snd (all_entries T2 mems2))"
proof -
  let ?s1 = "registered T1 n S1 f1 mems1 mt s"
  let ?s2 = "registered T2 n S2 f2 mems2 mt ?s1"
  have r1: "Class T1 n S1 f1 mems1 s = Some ?s1"
    using assms(2) by (rule Class_eq)
  have "registry ?s1 (c_str n) = LTable mt"
    using assms(2) by simp
  then have r2: "Class T2 n S2 f2 mems2 ?s1 = Some ?s2"
    by (rule Class_eq)
  have tags: "registry ?s2 (c_str (getName T1 ?s2)) = LTable mt"
      "registry ?s2 (c_str (getName T2 ?s2)) = LTable mt"
    using assms by (simp_all add: getName_def)
  have keep: "tables ?s2 mt (LString k) = tables ?s1 mt (LString k)"
    if "k \<notin> set (written_keys mems2) \<and> k \<noteq> ''new'' \<and> k \<noteq> ''__index''" for k
    using that by (simp add: install_unwritten)
  have new: "tables ?s2 mt (LString ''new'') = Some (LCFunction (NewInstance (type_id T2) S2))"
    if "''new'' \<notin> set (written_keys mems2)"
    using that by (simp add: install_unwritten)
  have st: "statics ?s1 (type_id T1) = \<lparr>className = n, functions_ptr = Some f1, valid = True\<rparr>"
      "statics ?s2 (type_id T1) = statics ?s1 (type_id T1)"
      "statics ?s1 (type_id T2) = statics s (type_id T2)"
      "statics ?s2 (type_id T2) = \<lparr>className = n, functions_ptr = Some f2, valid = True\<rparr>"
    using assms(1) by simp_all
  have fs: "stores ?s1 f1 = stores s f1 @ map snd (all_entries T1 mems1)"
      "stores ?s2 f2 = stores ?s1 f2 @ map snd (all_entries T2 mems2)"
    by simp_all
  have apart: "stores ?s2 f1 = stores s f1 @ map snd (all_entries T1 mems1)"
      "stores ?s2 f2 = stores s f2 @ map snd (all_entries T2 mems2)" if "f1 \<noteq> f2"
    using that by simp_all
  have same: "stores ?s2 f1 =
      stores s f1 @ map snd (all_entries T1 mems1) @ map snd (all_entries T2 mems2)" if "f1 = f2"
    using that by simp
  show ?thesis
    apply (rule exI [where x = ?s1])
    apply (rule exI [where x = ?s2])
    apply (intro conjI allI impI)
                  apply (rule r1)
                 apply (rule r2)
                apply (rule tags(1))
               apply (rule tags(2))
              apply (erule keep)
             apply (erule new)
            apply (rule st(1))
           apply (rule st(2))
          apply (rule st(3))
         apply (rule st(4))
        apply (rule fs(1))
       apply (rule fs(2))
      apply (erule apart(1))
     apply (erule apart(2))
    apply (erule same)
    done
qed

theorem same_name_shares_metatable_witness:
  "(\<exists>s1 s2. Class Point ''Point'' [TInt, TInt] 0 [(''getSum'', ConstMemFn getSum)] P0 = Some s1
       \<and> Class Cell ''Point'' [TInt] 1 [(''value'', DataMember TInt 0)] s1 = Some s2
       \<and> registry s2 (c_str (getName Point s2)) = LTable 0
       \<and> registry s2 (c_str (getName Cell s2)) = LTable 0
       \<and> tables s2 0 (LString ''getSum'') = tables s1 0 (LString ''getSum'')
       \<and> tables s2 0 (LString ''new'') = Some (LCFunction (NewInstance 1 [TInt]))
       \<and> statics s2 0 = \<lparr>className = ''Point'', functions_ptr = Some 0, valid = True\<rparr>
       \<and> statics s2 1 = \<lparr>className = ''Point'', functions_ptr = Some 1, valid = True\<rparr>
       \<and> stores s2 0 = stores P0 0 @ map snd (all_entries Point [(''getSum'', ConstMemFn getSum)])
       \<and> stores s2 1 = stores P0 1 @ map snd (all_entries Cell [(''value'', DataMember TInt 0)]))
   \<and> (\<exists>s1 s2. Class Point ''Point'' [TInt, TInt] 0 [(''getSum'', ConstMemFn getSum)] P0 = Some s1
       \<and> Class Cell ''Point'' [TInt] 0 [(''value'', DataMember TInt 0)] s1 = Some s2
       \<and> stores s2 0 = stores P0 0 @ map snd (all_entries Point [(''getSum'', ConstMemFn getSum)])
                          @ map snd (all_entries Cell [(''value'', DataMember TInt 0)]))"
proof -
  have ne: "type_id Point \<noteq> type_id Cell"
    by (simp add: Point_def Cell_def)
  have ids: "type_id Point = 0" "type_id Cell = 1"
    by (simp_all add: Point_def Cell_def)
  have k1: "''getSum'' \<notin> set (written_keys [(''value'', DataMember TInt 0)]) \<and> ''getSum'' \<noteq> ''new''
      \<and> ''getSum'' \<noteq> ''__index''"
    by simp
  have k2: "''new'' \<notin> set (written_keys [(''value'', DataMember TInt 0)])"
    by simp
  have k3: "(0::nat) \<noteq> 1" by simp
  from same_name_shares_metatable [OF ne P0_registry, of "[TInt, TInt]" 0 "[(''getSum'', ConstMemFn getSum)]"
      "[TInt]" 1 "[(''value'', DataMember TInt 0)]", unfolded ids]
  obtain s1 s2 where h:
    "Class Point ''Point'' [TInt, TInt] 0 [(''getSum'', ConstMemFn getSum)] P0 = Some s1
     \<and> Class Cell ''Point'' [TInt] 1 [(''value'', DataMember TInt 0)] s1 = Some s2
     \<and> registry s2 (c_str (getName Point s2)) = LTable 0
     \<and> registry s2 (c_str (getName Cell s2)) = LTable 0
     \<and> (\<forall>k. k \<notin> set (written_keys [(''value'', DataMember TInt 0)]) \<and> k \<noteq> ''new'' \<and> k \<noteq> ''__index'' \<longrightarrow>
                  tables s2 0 (LString k) = tables s1 0 (LString k))
     \<and> (''new'' \<notin> set (written_keys [(''value'', DataMember TInt 0)]) \<longrightarrow>
                  tables s2 0 (LString ''new'') = Some (LCFunction (NewInstance 1 [TInt])))
     \<and> statics s1 0 = \<lparr>className = ''Point'', functions_ptr = Some 0, valid = True\<rparr>
     \<and> statics s2 0 = statics s1 0
     \<and> statics s1 1 = statics P0 1
     \<and> statics s2 1 = \<lparr>className = ''Point'', functions_ptr = Some 1, valid = True\<rparr>
     \<and> stores s1 0 = stores P0 0 @ map snd (all_entries Point [(''getSum'', ConstMemFn getSum)])
     \<and> stores s2 1 = stores s1 1 @ map snd (all_entries Cell [(''value'', DataMember TInt 0)])
     \<and> ((0::nat) \<noteq> 1 \<longrightarrow> stores s2 0 = stores P0 0 @ map snd (all_entries Point [(''getSum'', ConstMemFn getSum)]))
     \<and> ((0::nat) \<noteq> 1 \<longrightarrow> stores s2 1 = stores P0 1 @ map snd (all_entries Cell [(''value'', DataMember TInt 0)]))
     \<and> ((0::nat) = 1 \<longrightarrow> stores s2 0 =
           stores P0 0 @ map snd (all_entries Point [(''getSum'', ConstMemFn getSum)])
                       @ map snd (all_entries Cell [(''value'', DataMember TInt 0)]))"
    by (elim exE)
  from h have p1: "Class Point ''Point'' [TInt, TInt] 0 [(''getSum'', ConstMemFn getSum)] P0 = Some s1"
    by (elim conjE)
  from h have p2: "Class Cell ''Point'' [TInt] 1 [(''value'', DataMember TInt 0)] s1 = Some s2"
    by (elim conjE)
  from h have p3: "registry s2 (c_str (getName Point s2)) = LTable 0"
    by (elim conjE)
  from h have p4: "registry s2 (c_str (getName Cell s2)) = LTable 0"
    by (elim conjE)
  from h have p5: "\<forall>k. k \<notin> set (written_keys [(''value'', DataMember TInt 0)]) \<and> k \<noteq> ''new'' \<and> k \<noteq> ''__index'' \<longrightarrow>
                  tables s2 0 (LString k) = tables s1 0 (LString k)"
    by (elim conjE)
  from h have p6: "''new'' \<notin> set (written_keys [(''value'', DataMember TInt 0)]) \<longrightarrow>
                  tables s2 0 (LString ''new'') = Some (LCFunction (NewInstance 1 [TInt]))"
    by (elim conjE)
  from h have p7: "statics s1 0 = \<lparr>className = ''Point'', functions_ptr = Some 0, valid = True\<rparr>"
    by (elim conjE)
  from h have p8: "statics s2 0 = statics s1 0"
    by (elim conjE)
  from h have p10: "statics s2 1 = \<lparr>className = ''Point'', functions_ptr = Some 1, valid = True\<rparr>"
    by (elim conjE)
  from h have p13: "(0::nat) \<noteq> 1 \<longrightarrow> stores s2 0 = stores P0 0 @ map snd (all_entries Point [(''getSum'', ConstMemFn getSum)])"
    by (elim conjE)
  from h have p14: "(0::nat) \<noteq> 1 \<longrightarrow> stores s2 1 = stores P0 1 @ map snd (all_entries Cell [(''value'', DataMember TInt 0)])"
    by (elim conjE)
  have a: "tables s2 0 (LString ''getSum'') = tables s1 0 (LString ''getSum'')"
    using spec [OF p5, of "''getSum''"] k1 by (rule mp)
  from p6 k2 have b: "tables s2 0 (LString ''new'') = Some (LCFunction (NewInstance 1 [TInt]))"
    by (rule mp)
  from p13 k3 have c: "stores s2 0 = stores P0 0 @ map snd (all_entries Point [(''getSum'', ConstMemFn getSum)])"
    by (rule mp)
  from p14 k3 have c': "stores s2 1 = stores P0 1 @ map snd (all_entries Cell [(''value'', DataMember TInt 0)])"
    by (rule mp)
  from p8 p7 have d: "statics s2 0 = \<lparr>className = ''Point'', functions_ptr = Some 0, valid = True\<rparr>"
    by (rule trans)
  from p1 p2 p3 p4 a b d p10 c c' have first:
    "\<exists>s1 s2. Class Point ''Point'' [TInt, TInt] 0 [(''getSum'', ConstMemFn getSum)] P0 = Some s1
       \<and> Class Cell ''Point'' [TInt] 1 [(''value'', DataMember TInt 0)] s1 = Some s2
       \<and> registry s2 (c_str (getName Point s2)) = LTable 0
       \<and> registry s2 (c_str (getName Cell s2)) = LTable 0
       \<and> tables s2 0 (LString ''getSum'') = tables s1 0 (LString ''getSum'')
       \<and> tables s2 0 (LString ''new'') = Some (LCFunction (NewInstance 1 [TInt]))
       \<and> statics s2 0 = \<lparr>className = ''Point'', functions_ptr = Some 0, valid = True\<rparr>
       \<and> statics s2 1 = \<lparr>className = ''Point'', functions_ptr = Some 1, valid = True\<rparr>
       \<and> stores s2 0 = stores P0 0 @ map snd (all_entries Point [(''getSum'', ConstMemFn getSum)])
       \<and> stores s2 1 = stores P0 1 @ map snd (all_entries Cell [(''value'', DataMember TInt 0)])"
    apply (rule_tac x = s1 in exI)
    apply (rule_tac x = s2 in exI)
    apply (intro conjI)
             apply assumption+
    done
  from same_name_shares_metatable [OF ne P0_registry, of "[TInt, TInt]" 0 "[(''getSum'', ConstMemFn getSum)]"
      "[TInt]" 0 "[(''value'', DataMember TInt 0)]"]
  obtain t1 t2 where
    q1: "Class Point ''Point'' [TInt, TInt] 0 [(''getSum'', ConstMemFn getSum)] P0 = Some t1"
    and q2: "Class Cell ''Point'' [TInt] 0 [(''value'', DataMember TInt 0)] t1 = Some t2"
    and q3: "(0::nat) = 0 \<longrightarrow> stores t2 0 =
           stores P0 0 @ map snd (all_entries Point [(''getSum'', ConstMemFn getSum)])
                       @ map snd (all_entries Cell [(''value'', DataMember TInt 0)])"
    by (elim exE conjE)
  from q3 have q3': "stores t2 0 =
           stores P0 0 @ map snd (all_entries Point [(''getSum'', ConstMemFn getSum)])
                       @ map snd (all_entries Cell [(''value'', DataMember TInt 0)])"
    by (rule mp) (rule refl)
  from q1 q2 q3' have second:
    "\<exists>s1 s2. Class Point ''Point'' [TInt, TInt] 0 [(''getSum'', ConstMemFn getSum)] P0 = Some s1
       \<and> Class Cell ''Point'' [TInt] 0 [(''value'', DataMember TInt 0)] s1 = Some s2
       \<and> stores s2 0 = stores P0 0 @ map snd (all_entries Point [(''getSum'', ConstMemFn getSum)])
                          @ map snd (all_entries Cell [(''value'', DataMember TInt 0)])"
    apply (rule_tac x = t1 in exI)
    apply (rule_tac x = t2 in exI)
    apply (intro conjI)
      apply assumption+
    done
  from first second show ?thesis ..
qed

theorem same_name_entries_cross_counterexample:
  "Class Point ''Point'' [TInt, TInt] 0 [(''getSum'', ConstMemFn getSum)] P0
     = Some (registered Point ''Point'' [TInt, TInt] 0 [(''getSum'', ConstMemFn getSum)] 0 P0)
   \<and> Class Cell ''Point'' [TInt] 0 [(''value'', DataMember (TConst TInt) 0)]
        (registered Point ''Point'' [TInt, TInt] 0 [(''getSum'', ConstMemFn getSum)] 0 P0)
     = Some (registered Cell ''Point'' [TInt] 0 [(''value'', DataMember (TConst TInt) 0)] 0
              (registered Point ''Point'' [TInt, TInt] 0 [(''getSum'', ConstMemFn getSum)] 0 P0))
   \<and> registry (registered Cell ''Point'' [TInt] 0 [(''value'', DataMember (TConst TInt) 0)] 0
              (registered Point ''Point'' [TInt, TInt] 0 [(''getSum'', ConstMemFn getSum)] 0 P0))
        (c_str (getName Cell (registered Cell ''Point'' [TInt] 0 [(''value'', DataMember (TConst TInt) 0)] 0
              (registered Point ''Point'' [TInt, TInt] 0 [(''getSum'', ConstMemFn getSum)] 0 P0))))
     = LTable 0
   \<and> tables (registered Cell ''Point'' [TInt] 0 [(''value'', DataMember (TConst TInt) 0)] 0
              (registered Point ''Point'' [TInt, TInt] 0 [(''getSum'', ConstMemFn getSum)] 0 P0))
        0 (LString ''getSum'')
     = Some (LClosure (bound_callable Point (ConstMemFn getSum)))
   \<and> functions_ptr (statics (registered Cell ''Point'' [TInt] 0 [(''value'', DataMember (TConst TInt) 0)] 0
              (registered Point ''Point'' [TInt, TInt] 0 [(''getSum'', ConstMemFn getSum)] 0 P0))
        (type_id Point)) = Some 0
   \<and> functions_ptr (statics (registered Cell ''Point'' [TInt] 0 [(''value'', DataMember (TConst TInt) 0)] 0
              (registered Point ''Point'' [TInt, TInt] 0 [(''getSum'', ConstMemFn getSum)] 0 P0))
        (type_id Cell)) = Some 0
   \<and> stores (registered Cell ''Point'' [TInt] 0 [(''value'', DataMember (TConst TInt) 0)] 0
              (registered Point ''Point'' [TInt, TInt] 0 [(''getSum'', ConstMemFn getSum)] 0 P0)) 0
     = [bound_callable Point (ConstMemFn getSum), bound_callable Cell (DataMember (TConst TInt) 0)]"
proof -
  let ?s1 = "registered Point ''Point'' [TInt, TInt] 0 [(''getSum'', ConstMemFn getSum)] 0 P0"
  let ?s2 = "registered Cell ''Point'' [TInt] 0 [(''value'', DataMember (TConst TInt) 0)] 0 ?s1"
  have r1: "Class Point ''Point'' [TInt, TInt] 0 [(''getSum'', ConstMemFn getSum)] P0 = Some ?s1"
    using P0_registry by (rule Class_eq)
  have r2: "Class Cell ''Point'' [TInt] 0 [(''value'', DataMember (TConst TInt) 0)] ?s1 = Some ?s2"
    using registered_registry_P0 by (rule Class_eq)
  have tag: "registry ?s2 (c_str (getName Cell ?s2)) = LTable 0"
    using P0_registry by (simp add: getName_def)
  have entry: "tables ?s2 0 (LString ''getSum'') = Some (LClosure (bound_callable Point (ConstMemFn getSum)))"
    by simp
  have ptrs: "functions_ptr (statics ?s2 (type_id Point)) = Some 0"
      "functions_ptr (statics ?s2 (type_id Cell)) = Some 0"
    by (simp_all add: Point_def Cell_def)
  have st: "stores ?s2 0 = [bound_callable Point (ConstMemFn getSum), bound_callable Cell (DataMember (TConst TInt) 0)]"
    by (simp add: P0_def startup_def)
  from r1 r2 tag entry ptrs st show ?thesis by (intro conjI)
qed

text \<open>
  C8. When two members are supplied under the same name, the entry of the metatable
  under that name is the callable of the later one: the members are bound in the order
  supplied, each raw-set overwrites what the key held, and the registration succeeds
  all the same (nothing reports the collision). ``Later'' is the last member that writes
  the key, so no member after the second one writes it.
\<close>

theorem later_binding_wins:
  assumes "registry s (c_str n) = LTable mt"
      and "c_str name \<notin> set (written_keys post)"
  shows "\<exists>s'. Class cls n CstrArgs fmap (pre @ (name, m1) # mid @ (name, m2) # post) s = Some s'
           \<and> tables s' mt (LString (c_str name)) = Some (LClosure (bound_callable cls m2))"
proof -
  let ?mems = "pre @ (name, m1) # mid @ (name, m2) # post"
  have split: "?mems = (pre @ (name, m1) # mid) @ (name, m2) # post"
    by simp
  have "Class cls n CstrArgs fmap ?mems s = Some (registered cls n CstrArgs fmap ?mems mt s)"
    using assms(1) by (rule Class_eq)
  moreover have "tables (registered cls n CstrArgs fmap ?mems mt s) mt (LString (c_str name))
      = Some (LClosure (bound_callable cls m2))"
    unfolding split registered_simps fun_upd_same install_then_member [OF assms(2)]
    by (rule install_member_own)
  ultimately show ?thesis by blast
qed

theorem later_binding_wins_witness:
  "\<exists>s'. Class Point ''Point'' [TInt, TInt] 0
           [(''value'', DataMember TInt 0), (''value'', ConstMemFn getSum)] P0 = Some s'
      \<and> tables s' 0 (LString ''value'') =
          Some (LClosure \<lparr>fn_ret = TInt, fn_params = [TPtr 0], fn_target = ConstMemberFunction getSum\<rparr>)"
  using later_binding_wins [of P0 "''Point''" 0 "''value''" "[]" Point "[TInt, TInt]" 0 "[]"
      "DataMember TInt 0" "[]" "ConstMemFn getSum", OF P0_registry]
  by (simp add: c_str_def Point_def getSum_def)



text \<open>
  C10. A registration leaves the value stack of the runtime as it found it: the
  constructor pushes the metatable, each installed entry pushes one name and one callable
  that the raw-set consumes, and the metatable is popped before the constructor returns.
  The registration succeeds whenever the registry holds a table under the class name,
  and each single \<^verbatim>\<open>addMember\<close> already restores the stack.
\<close>

theorem registration_stack_neutral:
  "(registry s (c_str n) = LTable mt \<longrightarrow> (\<exists>s'. Class cls n CstrArgs fmap mems s = Some s'))
   \<and> (\<forall>s'. Class cls n CstrArgs fmap mems s = Some s' \<longrightarrow> stack s' = stack s)
   \<and> (\<forall>u rest a name mem.
         stack u = LTable mt # rest \<and> functions_ptr (statics u (type_id cls)) = Some a \<longrightarrow>
         (\<exists>u'. addMember cls name mem u = Some u' \<and> stack u' = stack u))"
proof (intro conjI allI impI)
  assume "registry s (c_str n) = LTable mt"
  then show "\<exists>s'. Class cls n CstrArgs fmap mems s = Some s'"
    by (simp add: Class_eq)
next
  fix s' assume "Class cls n CstrArgs fmap mems s = Some s'"
  then show "stack s' = stack s"
    by (auto simp: Class_Some_iff)
next
  fix u :: program and rest a name mem
  assume "stack u = LTable mt # rest \<and> functions_ptr (statics u (type_id cls)) = Some a"
  then show "\<exists>u'. addMember cls name mem u = Some u' \<and> stack u' = stack u"
    by (simp add: addMember_eq)
qed

theorem registration_stack_neutral_witness:
  "(\<exists>s'. Class Point ''Point'' [TInt, TInt] 0
          [(''x'', DataMember TInt 0), (''getSum'', ConstMemFn getSum)] P0 = Some s'
        \<and> stack s' = stack P0)
   \<and> (\<exists>u'. addMember Point ''getSum'' (ConstMemFn getSum)
          (P0\<lparr>stack := [LTable 0],
              statics := (statics P0)(0 := \<lparr>className = ''Point'', functions_ptr = Some 0, valid = False\<rparr>)\<rparr>)
          = Some u'
        \<and> stack u' = [LTable 0])"
proof -
  let ?u = "P0\<lparr>stack := [LTable 0],
              statics := (statics P0)(0 := \<lparr>className = ''Point'', functions_ptr = Some 0, valid = False\<rparr>)\<rparr>"
  note inst = registration_stack_neutral [of P0 "''Point''" 0 Point "[TInt, TInt]" 0
      "[(''x'', DataMember TInt 0), (''getSum'', ConstMemFn getSum)]"]
  have "stack ?u = LTable 0 # [] \<and> functions_ptr (statics ?u (type_id Point)) = Some 0"
    by (simp add: Point_def)
  with inst have "\<exists>u'. addMember Point ''getSum'' (ConstMemFn getSum) ?u = Some u' \<and> stack u' = stack ?u"
    by blast
  moreover have "\<exists>s'. Class Point ''Point'' [TInt, TInt] 0
          [(''x'', DataMember TInt 0), (''getSum'', ConstMemFn getSum)] P0 = Some s'
        \<and> stack s' = stack P0"
    using inst P0_registry by blast
  ultimately show ?thesis by simp
qed

end
